theory Spec2Isabelle
  imports Main "HOL-Library.Word"
begin

unbundle bit_operations_syntax

section \<open>The serial command line of the Laureline firmware (cmdline.c)\<close>

text \<open>
  The embedding follows \<^verbatim>\<open>src/cmdline.c\<close>. File-scope variables become the fields of
  one state record that every function takes and returns. Bytes are \<^typ>\<open>char\<close>; a C
  string is the \<^typ>\<open>string\<close> of its bytes before the terminating NUL. Everything sent
  to the serial port, and every call of a collaborator that the file does not define,
  is appended to one ordered trace.
\<close>

subsection \<open>Bytes and the C library\<close>

abbreviation NUL :: char where "NUL \<equiv> CHR 0x00"
abbreviation EOT :: char where "EOT \<equiv> CHR 0x04"
abbreviation BS :: char where "BS \<equiv> CHR 0x08"
abbreviation TAB :: char where "TAB \<equiv> CHR 0x09"
abbreviation LF :: char where "LF \<equiv> CHR 0x0A"
abbreviation FF :: char where "FF \<equiv> CHR 0x0C"
abbreviation CR :: char where "CR \<equiv> CHR 0x0D"
abbreviation ESC :: char where "ESC \<equiv> CHR 0x1B"
abbreviation DEL :: char where "DEL \<equiv> CHR 0x7F"

abbreviation CRLF :: string where "CRLF \<equiv> [CR, LF]"

text \<open>\<^verbatim>\<open>tolower\<close> in the C locale: only A..Z change.\<close>

definition tolower :: "char \<Rightarrow> char" where
  "tolower c = (if 65 \<le> (of_char c :: nat) \<and> (of_char c :: nat) \<le> 90
                then char_of ((of_char c :: nat) + 32) else c)"

text \<open>The byte a \<^verbatim>\<open>char *\<close> points at: the terminator once the string is used up.\<close>

fun deref :: "string \<Rightarrow> char" where
  "deref [] = NUL"
| "deref (c # cs) = c"

text \<open>
  \<^verbatim>\<open>strncasecmp(a, b, n)\<close>: at most \<open>n\<close> bytes are compared, lower-cased; the scan stops
  at the first difference or at a terminator reached in both strings. The result is the
  difference of the two bytes read as unsigned.
\<close>

fun strncasecmp :: "string \<Rightarrow> string \<Rightarrow> nat \<Rightarrow> int" where
  "strncasecmp a b 0 = 0"
| "strncasecmp a b (Suc n) =
     (let ca = tolower (deref a); cb = tolower (deref b)
      in if ca \<noteq> cb then int (of_char ca) - int (of_char cb)
         else if ca = NUL then 0
         else strncasecmp (tl a) (tl b) n)"

abbreviation strlen :: "string \<Rightarrow> nat" where "strlen \<equiv> length"

text \<open>
  \<^verbatim>\<open>bsearch\<close> over the indices \<open>l..<u\<close> of a table: \<open>cmp i\<close> is the comparison of the key
  with element \<open>i\<close>. The probe is the middle element; a negative result continues to the
  left of it, a positive one to the right.
\<close>

function bsearch_range :: "(nat \<Rightarrow> int) \<Rightarrow> nat \<Rightarrow> nat \<Rightarrow> nat option" where
  "bsearch_range cmp l u =
     (if l < u
      then (if cmp ((l + u) div 2) < 0 then bsearch_range cmp l ((l + u) div 2)
            else if cmp ((l + u) div 2) > 0 then bsearch_range cmp ((l + u) div 2 + 1) u
            else Some ((l + u) div 2))
      else None)"
  by pat_completeness auto
termination
  by (relation "measure (\<lambda>(cmp, l, u). u - l)") auto

declare bsearch_range.simps [simp del]

definition bsearch :: "'k \<Rightarrow> 'e list \<Rightarrow> nat \<Rightarrow> ('k \<Rightarrow> 'e \<Rightarrow> int) \<Rightarrow> nat option" where
  "bsearch key base nmemb compar = bsearch_range (\<lambda>i. compar key (base ! i)) 0 nmemb"

subsection \<open>Formatted output\<close>

definition digit_char :: "nat \<Rightarrow> char" where
  "digit_char d = char_of (48 + d)"

fun dec :: "nat \<Rightarrow> string" where
  "dec n = (if n < 10 then [digit_char n] else dec (n div 10) @ [digit_char (n mod 10)])"

declare dec.simps [simp del]

definition sdec :: "int \<Rightarrow> string" where
  "sdec i = (if i < 0 then CHR ''-'' # dec (nat (- i)) else dec (nat i))"

text \<open>The variadic arguments the file passes to its formats.\<close>

datatype fmt_arg = S string | U nat | D int

fun conv :: "char \<Rightarrow> fmt_arg \<Rightarrow> string option" where
  "conv c (S s) = (if c = CHR ''s'' then Some s else None)"
| "conv c (U n) = (if c = CHR ''u'' then Some (dec n) else None)"
| "conv c (D i) = (if c = CHR ''d'' then Some (sdec i) else None)"

text \<open>
  The text a format produces, for the three conversions the file uses
  (\<^verbatim>\<open>%s\<close>, \<^verbatim>\<open>%u\<close>, \<^verbatim>\<open>%d\<close>); any other byte is copied.
\<close>

fun format :: "string \<Rightarrow> fmt_arg list \<Rightarrow> string" where
  "format [] as = []"
| "format [c] as = [c]"
| "format (c # d # f) [] = c # format (d # f) []"
| "format (c # d # f) (a # as) =
     (if c = CHR ''%''
      then (case conv d a of Some t \<Rightarrow> t @ format f as
                           | None \<Rightarrow> c # format (d # f) (a # as))
      else c # format (d # f) (a # as))"

text \<open>
  \<^verbatim>\<open>vsnprintf(buf, n, fmt, ap)\<close>: at most \<open>n - 1\<close> bytes of the text are stored,
  followed by a terminator; the rest of the array keeps its bytes.
\<close>

definition vsnprintf :: "char list \<Rightarrow> nat \<Rightarrow> string \<Rightarrow> fmt_arg list \<Rightarrow> char list" where
  "vsnprintf buf n fmt ap =
     (if n = 0 then buf
      else (let out = take (n - 1) (format fmt ap)
            in out @ [NUL] @ drop (Suc (length out)) buf))"

text \<open>The string that starts at the first byte of an array.\<close>

definition cstr :: "char list \<Rightarrow> string" where
  "cstr buf = takeWhile (\<lambda>c. c \<noteq> NUL) buf"

subsection \<open>State\<close>

datatype fault = WriteOutOfBounds nat | ReadPastEnd

datatype event =
    Puts string
  | Putc char
  | EepromWriteCfg
  | CoTickDelay_S2ST nat
  | WriteAIRCR "32 word"

type_synonym bytes4 = "8 word \<times> 8 word \<times> 8 word \<times> 8 word"

text \<open>
  Modelled from the spec: the configuration record \<^verbatim>\<open>cfg\<close> is declared in eeprom.h, which
  is not part of the sources. The spec describes it as a record of named fields, each
  small enough to address directly; the fields are the ones cmdline.c names. Each field
  the value table points at is kept as the four bytes at its address, in memory order.
\<close>

record cfg_t =
  version :: nat
  gps_baud_rate :: bytes4
  ip_addr :: bytes4
  ip_gateway :: bytes4
  ip_netmask :: bytes4

datatype cfg_ptr = Ptr_gps_baud_rate | Ptr_ip_addr | Ptr_ip_gateway | Ptr_ip_netmask

fun load :: "cfg_t \<Rightarrow> cfg_ptr \<Rightarrow> bytes4" where
  "load c Ptr_gps_baud_rate = gps_baud_rate c"
| "load c Ptr_ip_addr = ip_addr c"
| "load c Ptr_ip_gateway = ip_gateway c"
| "load c Ptr_ip_netmask = ip_netmask c"

fun store :: "cfg_ptr \<Rightarrow> bytes4 \<Rightarrow> cfg_t \<Rightarrow> cfg_t" where
  "store Ptr_gps_baud_rate v c = c\<lparr>gps_baud_rate := v\<rparr>"
| "store Ptr_ip_addr v c = c\<lparr>ip_addr := v\<rparr>"
| "store Ptr_ip_gateway v c = c\<lparr>ip_gateway := v\<rparr>"
| "store Ptr_ip_netmask v c = c\<lparr>ip_netmask := v\<rparr>"

text \<open>A 32-bit value and its four bytes; the Cortex-M target is little-endian.\<close>

definition u32_of_bytes :: "bytes4 \<Rightarrow> 32 word" where
  "u32_of_bytes b = (case b of (b0, b1, b2, b3) \<Rightarrow>
     ucast b0 OR push_bit 8 (ucast b1) OR push_bit 16 (ucast b2) OR push_bit 24 (ucast b3))"

definition bytes_of_u32 :: "32 word \<Rightarrow> bytes4" where
  "bytes_of_u32 w = (ucast w, ucast (drop_bit 8 w), ucast (drop_bit 16 w), ucast (drop_bit 24 w))"

record cli_state =
  cl_enabled :: "8 word"
  cl_count :: nat
  cl_buf :: "char list"
  fmt_buf :: "char list"
  cfg :: cfg_t
  trace :: "event list"

abbreviation sizeof_cl_buf :: nat where "sizeof_cl_buf \<equiv> 64"
abbreviation sizeof_fmt_buf :: nat where "sizeof_fmt_buf \<equiv> 64"

text \<open>
  What the other translation units provide: the result codes of eeprom.h, the
  constants of the build, and what the collaborators return when called.
\<close>

record env =
  EERR_OK :: int
  EERR_TIMEOUT :: int
  EERR_NACK :: int
  EERR_FAULT :: int
  CFG_VERSION :: nat
  BOARD_REV :: string
  system_frequency :: "32 word"
  eeprom_write_cfg :: "16 word"
  uptime_format :: string

subsection \<open>Initialization and UART handling\<close>

definition serial_puts :: "string \<Rightarrow> cli_state \<Rightarrow> cli_state" where
  "serial_puts v s = s\<lparr>trace := trace s @ [Puts v]\<rparr>"

definition serial_putc :: "char \<Rightarrow> cli_state \<Rightarrow> cli_state" where
  "serial_putc c s = s\<lparr>trace := trace s @ [Putc c]\<rparr>"

definition uartPrint :: "string \<Rightarrow> cli_state \<Rightarrow> cli_state" where
  "uartPrint v s = serial_puts v s"

definition uart_printf :: "string \<Rightarrow> fmt_arg list \<Rightarrow> cli_state \<Rightarrow> cli_state" where
  "uart_printf fmt ap s =
     (let s1 = s\<lparr>fmt_buf := vsnprintf (fmt_buf s) sizeof_fmt_buf fmt ap\<rparr>
      in serial_puts (cstr (fmt_buf s1)) s1)"

text \<open>The bytes the serial port has received.\<close>

fun sent :: "event list \<Rightarrow> string" where
  "sent [] = []"
| "sent (Puts v # es) = v @ sent es"
| "sent (Putc c # es) = c # sent es"
| "sent (e # es) = sent es"

definition emit :: "event \<Rightarrow> cli_state \<Rightarrow> cli_state" where
  "emit ev s = s\<lparr>trace := trace s @ [ev]\<rparr>"

text \<open>
  A store to \<open>buf[i]\<close>. The array has \<open>length buf\<close> elements; a store beyond them is
  reported instead of performed.
\<close>

definition buf_write :: "char list \<Rightarrow> nat \<Rightarrow> char \<Rightarrow> fault + char list" where
  "buf_write buf i v = (if i < length buf then Inr (buf[i := v]) else Inl (WriteOutOfBounds i))"

text \<open>
  The string a pointer \<open>buf + i\<close> addresses: the bytes up to the next terminator inside
  the array. Without one, reading the string leaves the array.
\<close>

definition cstr_at :: "char list \<Rightarrow> nat \<Rightarrow> string option" where
  "cstr_at buf i =
     (if NUL \<in> set (drop i buf) then Some (takeWhile (\<lambda>c. c \<noteq> NUL) (drop i buf)) else None)"

subsection \<open>Tables\<close>

datatype cli_func =
    Func_cliDefaults | Func_cliExit | Func_cliHelp | Func_cliInfo
  | Func_cliSave | Func_cliSet | Func_cliUptime | Func_cliVersion

record clicmd_t =
  cmd_name :: string
  cmd_param :: string
  cmd_func :: cli_func

datatype vartype_e = VAR_UINT32 | VAR_BOOL | VAR_IP4

record clivalue_t =
  var_name :: string
  var_type :: vartype_e
  var_ptr :: cfg_ptr

definition cmd_table :: "clicmd_t list" where
  "cmd_table =
    [\<lparr>cmd_name = ''defaults'', cmd_param = ''reset to factory defaults and reboot'',
      cmd_func = Func_cliDefaults\<rparr>,
     \<lparr>cmd_name = ''exit'', cmd_param = ''leave command mode'', cmd_func = Func_cliExit\<rparr>,
     \<lparr>cmd_name = ''help'', cmd_param = [], cmd_func = Func_cliHelp\<rparr>,
     \<lparr>cmd_name = ''info'', cmd_param = ''show runtime information'', cmd_func = Func_cliInfo\<rparr>,
     \<lparr>cmd_name = ''save'', cmd_param = ''save changes and reboot'', cmd_func = Func_cliSave\<rparr>,
     \<lparr>cmd_name = ''set'', cmd_param = ''name=value or blank or * for list'',
      cmd_func = Func_cliSet\<rparr>,
     \<lparr>cmd_name = ''uptime'', cmd_param = ''show the system uptime'', cmd_func = Func_cliUptime\<rparr>,
     \<lparr>cmd_name = ''version'', cmd_param = ''show version'', cmd_func = Func_cliVersion\<rparr>]"

definition CMD_COUNT :: nat where
  "CMD_COUNT = length cmd_table"

definition value_table :: "clivalue_t list" where
  "value_table =
    [\<lparr>var_name = ''gps_baud_rate'', var_type = VAR_UINT32, var_ptr = Ptr_gps_baud_rate\<rparr>,
     \<lparr>var_name = ''ip_addr'', var_type = VAR_IP4, var_ptr = Ptr_ip_addr\<rparr>,
     \<lparr>var_name = ''ip_gateway'', var_type = VAR_IP4, var_ptr = Ptr_ip_gateway\<rparr>,
     \<lparr>var_name = ''ip_netmask'', var_type = VAR_IP4, var_ptr = Ptr_ip_netmask\<rparr>]"

definition VERSION :: string where
  "VERSION = ''1.2.3.4''"

subsection \<open>Command-line helpers\<close>

definition cliPrompt :: "cli_state \<Rightarrow> cli_state" where
  "cliPrompt s = uartPrint (CRLF @ ''# '') (s\<lparr>cl_count := 0, cl_enabled := 1\<rparr>)"

text \<open>
  The key handed to \<^verbatim>\<open>bsearch\<close> is a \<^verbatim>\<open>clicmd_t\<close> of which only the name is set and
  read: the string in \<^verbatim>\<open>cl_buf\<close>.
\<close>

definition cliCompare :: "string \<Rightarrow> clicmd_t \<Rightarrow> int" where
  "cliCompare a b = strncasecmp a (cmd_name b) (strlen (cmd_name b))"

definition cliPrintVar :: "clivalue_t \<Rightarrow> nat \<Rightarrow> cli_state \<Rightarrow> cli_state" where
  "cliPrintVar var full s =
     (case load (cfg s) (var_ptr var) of (a0, a1, a2, a3) \<Rightarrow>
        (case var_type var of
           VAR_UINT32 \<Rightarrow> uart_printf ''%u'' [U (unat (u32_of_bytes (a0, a1, a2, a3)))] s
         | VAR_BOOL \<Rightarrow> uart_printf ''%u'' [U (if a0 \<noteq> 0 then 1 else 0)] s
         | VAR_IP4 \<Rightarrow>
             uart_printf ''%d.%d.%d.%d'' [D (uint a0), D (uint a1), D (uint a2), D (uint a3)] s))"

text \<open>
  Modelled from the spec: \<^verbatim>\<open>atoi_decimal\<close> is declared in util.h, which is not part of the
  sources. The spec has it parse the leading decimal digits of the text into an unsigned
  integer, a byte that is not a digit ending the scan.
\<close>

fun atoi_decimal_from :: "32 word \<Rightarrow> string \<Rightarrow> 32 word" where
  "atoi_decimal_from v [] = v"
| "atoi_decimal_from v (c # cs) =
     (if 48 \<le> (of_char c :: nat) \<and> (of_char c :: nat) \<le> 57
      then atoi_decimal_from (v * 10 + of_nat (of_char c - 48)) cs
      else v)"

definition atoi_decimal :: "string \<Rightarrow> 32 word" where
  "atoi_decimal str = atoi_decimal_from 0 str"

text \<open>The scan of the \<^verbatim>\<open>VAR_IP4\<close> case: \<open>val\<close> is 32 bits wide, \<open>val2\<close> eight.\<close>

fun ip4_scan :: "string \<Rightarrow> 32 word \<Rightarrow> 8 word \<Rightarrow> 32 word \<times> 8 word" where
  "ip4_scan [] val val2 = (val, val2)"
| "ip4_scan (c # str) val val2 =
     (if c = CHR ''.'' then ip4_scan str (push_bit 8 val OR ucast val2) 0
      else if 48 \<le> (of_char c :: nat) \<and> (of_char c :: nat) \<le> 57
      then ip4_scan str val (val2 * 10 + of_nat (of_char c - 48))
      else ip4_scan str val val2)"

definition ip4_val :: "string \<Rightarrow> 32 word" where
  "ip4_val str = (case ip4_scan str 0 0 of (val, val2) \<Rightarrow> push_bit 8 val OR ucast val2)"

text \<open>
  In the \<^verbatim>\<open>VAR_IP4\<close> case the source computes \<open>val\<close> and stops: the statement that
  would store it is commented out.
\<close>

definition cliSetVar :: "clivalue_t \<Rightarrow> string \<Rightarrow> cli_state \<Rightarrow> cli_state" where
  "cliSetVar var str s =
     (case var_type var of
        VAR_UINT32 \<Rightarrow> s\<lparr>cfg := store (var_ptr var) (bytes_of_u32 (atoi_decimal str)) (cfg s)\<rparr>
      | VAR_BOOL \<Rightarrow>
          (case load (cfg s) (var_ptr var) of (b0, b1, b2, b3) \<Rightarrow>
             s\<lparr>cfg := store (var_ptr var)
                        ((if atoi_decimal str \<noteq> 0 then 1 else 0), b1, b2, b3) (cfg s)\<rparr>)
      | VAR_IP4 \<Rightarrow> (let val = ip4_val str in s))"

subsection \<open>Command implementation\<close>

definition cliWriteConfig :: "env \<Rightarrow> cli_state \<Rightarrow> cli_state" where
  "cliWriteConfig e s =
     (let s1 = emit EepromWriteCfg (uartPrint (''Writing EEPROM...'' @ CRLF) s);
          result = sint (eeprom_write_cfg e)
      in if result = EERR_TIMEOUT e then
           uartPrint (''ERROR: timeout while writing EEPROM'' @ CRLF) s1
         else if result = EERR_NACK e then
           uartPrint (''ERROR: EEPROM is faulty or missing'' @ CRLF) s1
         else if result = EERR_FAULT e then
           uartPrint (''ERROR: EEPROM is faulty'' @ CRLF) s1
         else if result \<noteq> EERR_OK e then
           uartPrint (''FAIL: unable to write EEPROM'' @ CRLF) s1
         else
           emit (WriteAIRCR (0x05FA0000 OR 0x04))
             (emit (CoTickDelay_S2ST 1) (uartPrint (''OK'' @ CRLF) s1)))"

definition cliDefaults :: "env \<Rightarrow> nat option \<Rightarrow> cli_state \<Rightarrow> cli_state" where
  "cliDefaults e cmdline s =
     cliWriteConfig e
       (s\<lparr>cfg := \<lparr>version = CFG_VERSION e, gps_baud_rate = (0, 0, 0, 0), ip_addr = (0, 0, 0, 0),
                  ip_gateway = (0, 0, 0, 0), ip_netmask = (0, 0, 0, 0)\<rparr>\<rparr>)"

definition cliExit :: "nat option \<Rightarrow> cli_state \<Rightarrow> cli_state" where
  "cliExit cmdline s =
     uartPrint (''Exiting cmdline mode.'' @ CRLF
                @ ''Configuration changes have not been saved.'' @ CRLF
                @ ''Press Enter to enable cmdline.'' @ CRLF)
       (s\<lparr>cl_count := 0, cl_enabled := 0\<rparr>)"

fun cliHelp_loop :: "clicmd_t list \<Rightarrow> cli_state \<Rightarrow> cli_state" where
  "cliHelp_loop [] s = s"
| "cliHelp_loop (cmd # cmds) s =
     cliHelp_loop cmds
       (uart_printf (''%s'' @ [TAB] @ ''%s'' @ CRLF) [S (cmd_name cmd), S (cmd_param cmd)] s)"

definition cliHelp :: "nat option \<Rightarrow> cli_state \<Rightarrow> cli_state" where
  "cliHelp cmdline s = cliHelp_loop cmd_table (uartPrint (''Available commands:'' @ CRLF) s)"

definition cliUptime :: "env \<Rightarrow> nat option \<Rightarrow> cli_state \<Rightarrow> cli_state" where
  "cliUptime e cmdline s =
     uartPrint CRLF (uartPrint (uptime_format e) (uartPrint ''Uptime:         '' s))"

definition cliVersion :: "env \<Rightarrow> nat option \<Rightarrow> cli_state \<Rightarrow> cli_state" where
  "cliVersion e cmdline s =
     uartPrint (''Hardware:       '' @ BOARD_REV e @ CRLF
                @ ''Software:       '' @ VERSION @ CRLF) s"

definition cli_print_hwaddr :: "cli_state \<Rightarrow> cli_state" where
  "cli_print_hwaddr s = uartPrint CRLF (uartPrint ''MAC Address:    '' s)"

definition cliInfo :: "env \<Rightarrow> nat option \<Rightarrow> cli_state \<Rightarrow> cli_state" where
  "cliInfo e cmdline s =
     uart_printf (''System clock:   %d Hz (nominal)'' @ CRLF) [D (sint (system_frequency e))]
       (cliUptime e None (cli_print_hwaddr (cliVersion e None s)))"

definition cliSave :: "env \<Rightarrow> nat option \<Rightarrow> cli_state \<Rightarrow> cli_state" where
  "cliSave e cmdline s = cliWriteConfig e s"

text \<open>The listing loop of \<^verbatim>\<open>cliSet\<close>, over the entries still to print.\<close>

fun cliSet_list :: "clivalue_t list \<Rightarrow> nat \<Rightarrow> cli_state \<Rightarrow> cli_state" where
  "cliSet_list [] len s = s"
| "cliSet_list (val # vals) len s =
     cliSet_list vals len
       (uartPrint CRLF (cliPrintVar val len (uart_printf ''%s = '' [S (var_name val)] s)))"

text \<open>
  The assignment loop of \<^verbatim>\<open>cliSet\<close>, over the entries still to test: the first entry
  that matches is set and echoed and the function returns; the notice follows the loop.
\<close>

fun cliSet_assign :: "clivalue_t list \<Rightarrow> string \<Rightarrow> string \<Rightarrow> cli_state \<Rightarrow> cli_state" where
  "cliSet_assign [] cmdline eqptr s = uartPrint (''ERR: Unknown variable name'' @ CRLF) s"
| "cliSet_assign (val # vals) cmdline eqptr s =
     (if strncasecmp cmdline (var_name val) (strlen (var_name val)) = 0
      then cliPrintVar val 0
             (uart_printf ''%s set to '' [S (var_name val)] (cliSetVar val eqptr s))
      else cliSet_assign vals cmdline eqptr s)"

text \<open>
  \<open>cmdline\<close> is the offset into \<^verbatim>\<open>cl_buf\<close> the handler is given (\<open>None\<close> for a null
  pointer). \<^verbatim>\<open>strstr\<close> finds the first \<^verbatim>\<open>=\<close>; \<open>eqptr\<close> is moved past it and past the
  blanks that follow.
\<close>

definition cliSet :: "nat option \<Rightarrow> cli_state \<Rightarrow> fault + cli_state" where
  "cliSet cmdline s =
     (case (case cmdline of None \<Rightarrow> None | Some i \<Rightarrow> cstr_at (cl_buf s) i) of
        None \<Rightarrow> Inl ReadPastEnd
      | Some str \<Rightarrow>
          (let len = strlen str
           in if len = 0 \<or> (len = 1 \<and> str ! 0 = CHR ''*'') then
                Inr (cliSet_list value_table len (uartPrint (''Current settings:'' @ CRLF) s))
              else if CHR ''='' \<in> set str then
                Inr (cliSet_assign value_table str
                       (dropWhile (\<lambda>c. c = CHR '' '') (tl (dropWhile (\<lambda>c. c \<noteq> CHR ''='') str)))
                       s)
              else Inr s))"

fun call :: "cli_func \<Rightarrow> env \<Rightarrow> nat option \<Rightarrow> cli_state \<Rightarrow> fault + cli_state" where
  "call Func_cliDefaults e cmdline s = Inr (cliDefaults e cmdline s)"
| "call Func_cliExit e cmdline s = Inr (cliExit cmdline s)"
| "call Func_cliHelp e cmdline s = Inr (cliHelp cmdline s)"
| "call Func_cliInfo e cmdline s = Inr (cliInfo e cmdline s)"
| "call Func_cliSave e cmdline s = Inr (cliSave e cmdline s)"
| "call Func_cliSet e cmdline s = cliSet cmdline s"
| "call Func_cliUptime e cmdline s = Inr (cliUptime e cmdline s)"
| "call Func_cliVersion e cmdline s = Inr (cliVersion e cmdline s)"

subsection \<open>The input state machine\<close>

text \<open>
  The end of the carriage-return and newline branch of \<^verbatim>\<open>cli_feed\<close>, which both of its
  paths reach: the prompt while the session is enabled, then the store of the byte into
  \<^verbatim>\<open>cl_buf[0]\<close>.
\<close>

definition cli_feed_eol :: "char \<Rightarrow> cli_state \<Rightarrow> fault + cli_state" where
  "cli_feed_eol c s =
     (let s1 = (if cl_enabled s \<noteq> 0 then cliPrompt s else s)
      in case buf_write (cl_buf s1) 0 c of
           Inl f \<Rightarrow> Inl f
         | Inr b \<Rightarrow> Inr (s1\<lparr>cl_buf := b\<rparr>))"

text \<open>
  The branch taken when Enter is pressed on a line that holds bytes: the terminator is
  stored at \<^verbatim>\<open>cl_buf[cl_count]\<close>, the table is searched, and the handler found is called
  with \<^verbatim>\<open>cl_buf + strlen(cmd->name) + 1\<close>; then the array is cleared.
\<close>

definition cli_feed_enter :: "env \<Rightarrow> cli_state \<Rightarrow> fault + cli_state" where
  "cli_feed_enter e s =
     (let s1 = uartPrint CRLF s
      in case buf_write (cl_buf s1) (cl_count s1) NUL of
           Inl f \<Rightarrow> Inl f
         | Inr b \<Rightarrow>
             (let s2 = s1\<lparr>cl_buf := b\<rparr>
              in case (case bsearch (cstr (cl_buf s2)) cmd_table CMD_COUNT cliCompare of
                         Some i \<Rightarrow>
                           call (cmd_func (cmd_table ! i)) e
                             (Some (strlen (cmd_name (cmd_table ! i)) + 1)) s2
                       | None \<Rightarrow>
                           Inr (uartPrint (''ERR: Unknown command, try '' @ [CHR 0x27]
                                           @ ''help'' @ [CHR 0x27] @ CRLF) s2)) of
                   Inl f \<Rightarrow> Inl f
                 | Inr s3 \<Rightarrow> Inr (s3\<lparr>cl_buf := replicate sizeof_cl_buf NUL\<rparr>)))"

definition cli_feed :: "env \<Rightarrow> char \<Rightarrow> cli_state \<Rightarrow> fault + cli_state" where
  "cli_feed e c s0 =
     (if cl_enabled s0 = 0 \<and> c \<noteq> CR \<and> c \<noteq> LF then Inr s0
      else
        (let s = s0\<lparr>cl_enabled := 1\<rparr>
         in if c = TAB \<or> c = CHR ''?'' then Inr s
            else if cl_count s = 0 \<and> c = EOT then Inr (cliExit (Some 0) s)
            else if c = FF then
              Inr (cliPrompt (uartPrint ([ESC] @ ''[2J'' @ [ESC] @ ''[1;1H'') s))
            else if c = LF \<or> c = CR then
              (if cl_count s \<noteq> 0 then
                 (case cli_feed_enter e s of
                    Inl f \<Rightarrow> Inl f
                  | Inr s1 \<Rightarrow> cli_feed_eol c s1)
               else if c = LF \<and> cl_buf s ! 0 = CR then Inr s
               else cli_feed_eol c s)
            else if c = BS \<or> c = DEL then
              (if cl_count s \<noteq> 0 then
                 (case buf_write (cl_buf s) (cl_count s - 1) NUL of
                    Inl f \<Rightarrow> Inl f
                  | Inr b \<Rightarrow>
                      Inr (uartPrint [BS, CHR '' '', BS]
                             (s\<lparr>cl_count := cl_count s - 1, cl_buf := b\<rparr>)))
               else Inr s)
            else if cl_count s < sizeof_cl_buf \<and> 32 \<le> (of_char c :: nat)
                    \<and> (of_char c :: nat) \<le> 126 then
              (if cl_count s = 0 \<and> c = CHR '' '' then Inr s
               else
                 (case buf_write (cl_buf s) (cl_count s) c of
                    Inl f \<Rightarrow> Inl f
                  | Inr b \<Rightarrow>
                      Inr (serial_putc c (s\<lparr>cl_buf := b, cl_count := cl_count s + 1\<rparr>))))
            else Inr s))"

text \<open>Feeding the bytes of a sequence in order; a fault ends the run.\<close>

fun cli_feed_all :: "env \<Rightarrow> string \<Rightarrow> cli_state \<Rightarrow> fault + cli_state" where
  "cli_feed_all e [] s = Inr s"
| "cli_feed_all e (c # cs) s =
     (case cli_feed e c s of Inl f \<Rightarrow> Inl f | Inr s1 \<Rightarrow> cli_feed_all e cs s1)"

text \<open>
  The state at start-up: the file-scope variables are zero, as C initialises objects of
  static storage duration.
\<close>

definition cli_init :: "cfg_t \<Rightarrow> cli_state" where
  "cli_init c =
     \<lparr>cl_enabled = 0, cl_count = 0, cl_buf = replicate sizeof_cl_buf NUL,
      fmt_buf = replicate sizeof_fmt_buf NUL, cfg = c, trace = []\<rparr>"

subsection \<open>The text of a variable\<close>

text \<open>
  What the spec has \<^verbatim>\<open>format\<close> produce for each kind: the unsigned decimal of the stored
  value, \<^verbatim>\<open>0\<close> or \<^verbatim>\<open>1\<close> for the truth value of the stored byte, and the four bytes of
  an address in memory order, in decimal, separated by dots.
\<close>

definition dotted_quad :: "bytes4 \<Rightarrow> string" where
  "dotted_quad b = (case b of (a0, a1, a2, a3) \<Rightarrow>
     dec (unat a0) @ ''.'' @ dec (unat a1) @ ''.'' @ dec (unat a2) @ ''.'' @ dec (unat a3))"

definition var_text :: "clivalue_t \<Rightarrow> cfg_t \<Rightarrow> string" where
  "var_text var c =
     (case var_type var of
        VAR_UINT32 \<Rightarrow> dec (unat (u32_of_bytes (load c (var_ptr var))))
      | VAR_BOOL \<Rightarrow> (if fst (load c (var_ptr var)) = 0 then ''0'' else ''1'')
      | VAR_IP4 \<Rightarrow> dotted_quad (load c (var_ptr var)))"

subsection \<open>Well-formed states\<close>

text \<open>
  What holds of the state whenever \<^verbatim>\<open>cli_feed\<close> is entered: the two arrays have their
  declared sizes, the count is at most the size of the line buffer, the bytes held are
  printable, and a disabled session holds no bytes.
\<close>

definition cli_inv :: "cli_state \<Rightarrow> bool" where
  "cli_inv s \<longleftrightarrow>
     length (cl_buf s) = sizeof_cl_buf \<and> length (fmt_buf s) = sizeof_fmt_buf
     \<and> cl_count s \<le> sizeof_cl_buf
     \<and> (\<forall>c \<in> set (take (cl_count s) (cl_buf s)). 32 \<le> (of_char c :: nat) \<and> (of_char c :: nat) \<le> 126)
     \<and> (cl_enabled s = 0 \<longrightarrow> cl_count s = 0)"

subsection \<open>Sample values\<close>

text \<open>
  The state once Enter has been pressed after start-up: the session is enabled, the prompt
  has been sent and \<^verbatim>\<open>cl_buf[0]\<close> holds the carriage return.
\<close>

definition cli_ready :: "cfg_t \<Rightarrow> cli_state" where
  "cli_ready c =
     \<lparr>cl_enabled = 1, cl_count = 0, cl_buf = CR # replicate 63 NUL,
      fmt_buf = replicate sizeof_fmt_buf NUL, cfg = c, trace = [Puts (CRLF @ ''# '')]\<rparr>"

text \<open>The same state with the bytes of \<open>line\<close> typed and held.\<close>

definition cli_holding :: "cfg_t \<Rightarrow> string \<Rightarrow> cli_state" where
  "cli_holding c line =
     (cli_ready c)\<lparr>cl_count := length line,
                   cl_buf := line @ replicate (sizeof_cl_buf - length line) NUL,
                   trace := trace (cli_ready c) @ map Putc line\<rparr>"

text \<open>
  A table name matches a line when the line has at least as many bytes as the name and,
  lower-cased, begins with it: the comparison runs over the length of the name.
\<close>

definition prefix_match :: "string \<Rightarrow> string \<Rightarrow> bool" where
  "prefix_match name line \<longleftrightarrow>
     length name \<le> length line \<and> map tolower (take (length name) line) = map tolower name"


definition example_env :: env where
  "example_env = \<lparr>EERR_OK = 0, EERR_TIMEOUT = - 1, EERR_NACK = - 2, EERR_FAULT = - 3,
     CFG_VERSION = 1, BOARD_REV = ''7'', system_frequency = 72000000, eeprom_write_cfg = 0,
     uptime_format = ''1d''\<rparr>"

definition example_cfg :: cfg_t where
  "example_cfg = \<lparr>version = 1, gps_baud_rate = (0x80, 0x25, 0, 0), ip_addr = (192, 168, 0, 2),
     ip_gateway = (0, 0, 0, 0), ip_netmask = (255, 255, 255, 0)\<rparr>"

section \<open>Properties\<close>

subsection \<open>Bytes and strings\<close>

lemma char_of_eq_iff: "char_of (n::nat) = c \<longleftrightarrow> n mod 256 = of_char c"
proof -
  have "char_of n = c \<longleftrightarrow> char_of n = char_of (of_char c :: nat)" by simp
  also have "\<dots> \<longleftrightarrow> n mod 256 = (of_char c :: nat) mod 256" by (simp only: char_of_quasi_inj)
  also have "\<dots> \<longleftrightarrow> n mod 256 = of_char c" by simp
  finally show ?thesis .
qed

lemma eq_char_of_iff: "c = char_of (n::nat) \<longleftrightarrow> n mod 256 = of_char c"
  using char_of_eq_iff [of n c] by auto

lemma takeWhile_stop: "\<not> P y \<Longrightarrow> takeWhile P (xs @ y # ys) = takeWhile P xs"
  by (induction xs) auto

lemma cstr_terminated: "cstr (xs @ NUL # ys) = cstr xs"
  by (simp add: cstr_def takeWhile_stop)

lemma cstr_no_NUL: "NUL \<notin> set xs \<Longrightarrow> cstr xs = xs"
  by (induction xs) (auto simp: cstr_def)

lemma length_cstr_le: "length (cstr xs) \<le> length xs"
  by (simp add: cstr_def length_takeWhile_le)

subsection \<open>The formatted-print helper\<close>

lemma uart_printf_trace:
  "trace (uart_printf fmt ap s) = trace s @ [Puts (cstr (take 63 (format fmt ap)))]"
  by (simp add: uart_printf_def vsnprintf_def serial_puts_def Let_def cstr_terminated)

lemma uart_printf_fmt_buf:
  "fmt_buf (uart_printf fmt ap s) =
     take 63 (format fmt ap) @ [NUL] @ drop (Suc (min (length (format fmt ap)) 63)) (fmt_buf s)"
  by (simp add: uart_printf_def vsnprintf_def serial_puts_def Let_def)

lemma uart_printf_frame [simp]:
  "cl_enabled (uart_printf fmt ap s) = cl_enabled s"
  "cl_count (uart_printf fmt ap s) = cl_count s"
  "cl_buf (uart_printf fmt ap s) = cl_buf s"
  "cfg (uart_printf fmt ap s) = cfg s"
  by (simp_all add: uart_printf_def serial_puts_def Let_def)

text \<open>
  C10. Whatever the format and its arguments, \<^verbatim>\<open>uart_printf\<close> renders into the 64-byte
  \<open>fmt_buf\<close> through the size-bounded formatter and sends one string of at most 63 bytes:
  the first 63 bytes of the text (up to a terminator among them). A text that fits is sent
  whole, a longer one is cut; the scratch array keeps its 64 bytes and the line buffer is
  not touched.
\<close>

theorem uart_printf_bounded:
  assumes "length (fmt_buf s) = sizeof_fmt_buf"
  shows "\<exists>text. trace (uart_printf fmt ap s) = trace s @ [Puts text]
           \<and> text = cstr (take 63 (format fmt ap))
           \<and> length text \<le> 63
           \<and> (length (format fmt ap) \<le> 63 \<and> NUL \<notin> set (format fmt ap) \<longrightarrow> text = format fmt ap)
           \<and> length (fmt_buf (uart_printf fmt ap s)) = sizeof_fmt_buf
           \<and> cl_buf (uart_printf fmt ap s) = cl_buf s
           \<and> cl_count (uart_printf fmt ap s) = cl_count s"
proof -
  have "length (cstr (take 63 (format fmt ap))) \<le> length (take 63 (format fmt ap))"
    by (rule length_cstr_le)
  then have len: "length (cstr (take 63 (format fmt ap))) \<le> 63" by simp
  have buf: "length (fmt_buf (uart_printf fmt ap s)) = 64"
    using assms by (simp add: uart_printf_fmt_buf)
  show ?thesis
    using len buf by (simp add: uart_printf_trace cstr_no_NUL)
qed

theorem uart_printf_bounded_witness:
  "length (fmt_buf (cli_init example_cfg)) = sizeof_fmt_buf
   \<and> trace (uart_printf ''%s'' [S (replicate 100 (CHR ''x''))] (cli_init example_cfg))
       = [Puts (replicate 63 (CHR ''x''))]
   \<and> length (fmt_buf (uart_printf ''%s'' [S (replicate 100 (CHR ''x''))] (cli_init example_cfg)))
       = sizeof_fmt_buf
   \<and> length (format ''%s = '' [S ''ip_addr'']) \<le> 63
   \<and> NUL \<notin> set (format ''%s = '' [S ''ip_addr''])
   \<and> trace (uart_printf ''%s = '' [S ''ip_addr''] (cli_init example_cfg))
       = [Puts ''ip_addr = '']"
proof -
  have h: "length (fmt_buf (cli_init example_cfg)) = sizeof_fmt_buf"
    by (simp add: cli_init_def)
  have c: "cstr (take 63 (replicate 100 (CHR ''x''))) = replicate 63 (CHR ''x'')"
    by (simp add: cstr_no_NUL)
  have t: "trace (cli_init example_cfg) = []"
    by (simp add: cli_init_def)
  have f: "format ''%s'' [S (replicate 100 (CHR ''x''))] = replicate 100 (CHR ''x'')"
    by simp
  have g: "format ''%s = '' [S ''ip_addr''] = ''ip_addr = ''"
    by simp
  show ?thesis
    using uart_printf_bounded [OF h, of "''%s''" "[S (replicate 100 (CHR ''x''))]"]
      uart_printf_bounded [OF h, of "''%s = ''" "[S ''ip_addr'']"] h c t
    by (simp add: f g)
qed

subsection \<open>Output and collaborator calls\<close>

lemma uartPrint_trace [simp]: "trace (uartPrint v s) = trace s @ [Puts v]"
  by (simp add: uartPrint_def serial_puts_def)

lemma uartPrint_frame [simp]:
  "cl_enabled (uartPrint v s) = cl_enabled s"
  "cl_count (uartPrint v s) = cl_count s"
  "cl_buf (uartPrint v s) = cl_buf s"
  "fmt_buf (uartPrint v s) = fmt_buf s"
  "cfg (uartPrint v s) = cfg s"
  by (simp_all add: uartPrint_def serial_puts_def)

lemma emit_trace [simp]: "trace (emit ev s) = trace s @ [ev]"
  by (simp add: emit_def)

lemma emit_frame [simp]:
  "cl_enabled (emit ev s) = cl_enabled s"
  "cl_count (emit ev s) = cl_count s"
  "cl_buf (emit ev s) = cl_buf s"
  "fmt_buf (emit ev s) = fmt_buf s"
  "cfg (emit ev s) = cfg s"
  by (simp_all add: emit_def)

subsection \<open>Persist and reboot\<close>

lemma cliWriteConfig_trace:
  "trace (cliWriteConfig e s) =
     trace s @ [Puts (''Writing EEPROM...'' @ CRLF), EepromWriteCfg] @
     (if sint (eeprom_write_cfg e) = EERR_TIMEOUT e then
        [Puts (''ERROR: timeout while writing EEPROM'' @ CRLF)]
      else if sint (eeprom_write_cfg e) = EERR_NACK e then
        [Puts (''ERROR: EEPROM is faulty or missing'' @ CRLF)]
      else if sint (eeprom_write_cfg e) = EERR_FAULT e then
        [Puts (''ERROR: EEPROM is faulty'' @ CRLF)]
      else if sint (eeprom_write_cfg e) \<noteq> EERR_OK e then
        [Puts (''FAIL: unable to write EEPROM'' @ CRLF)]
      else [Puts (''OK'' @ CRLF), CoTickDelay_S2ST 1, WriteAIRCR 0x05FA0004])"
  by (simp add: cliWriteConfig_def Let_def)

text \<open>
  C3. With the four result codes of the persistence collaborator distinct, the
  persist-and-reboot sequence appends to the trace the writing notice, the call of the
  collaborator, and then, by its result: for OK the OK message, one delay and one write of
  the reset request, in this order; for Timeout only the timeout message; for
  NotAcknowledged, Fault and any other result only their message. No result but OK leads
  to a delay or a reset. \<^verbatim>\<open>save\<close> and \<^verbatim>\<open>defaults\<close> both run this sequence.
\<close>

theorem cliWriteConfig_outcomes:
  assumes "distinct [EERR_OK e, EERR_TIMEOUT e, EERR_NACK e, EERR_FAULT e]"
  shows "trace (cliWriteConfig e s)
           = trace s @ [Puts (''Writing EEPROM...'' @ CRLF), EepromWriteCfg] @
              (if sint (eeprom_write_cfg e) = EERR_OK e then
                 [Puts (''OK'' @ CRLF), CoTickDelay_S2ST 1, WriteAIRCR 0x05FA0004]
               else if sint (eeprom_write_cfg e) = EERR_TIMEOUT e then
                 [Puts (''ERROR: timeout while writing EEPROM'' @ CRLF)]
               else if sint (eeprom_write_cfg e) = EERR_NACK e then
                 [Puts (''ERROR: EEPROM is faulty or missing'' @ CRLF)]
               else if sint (eeprom_write_cfg e) = EERR_FAULT e then
                 [Puts (''ERROR: EEPROM is faulty'' @ CRLF)]
               else [Puts (''FAIL: unable to write EEPROM'' @ CRLF)])
         \<and> trace (cliSave e cmdline s) = trace (cliWriteConfig e s)
         \<and> trace (cliDefaults e cmdline s) = trace (cliWriteConfig e s)"
  using assms by (auto simp add: cliWriteConfig_trace cliSave_def cliDefaults_def)

theorem cliWriteConfig_outcomes_witness:
  "distinct [EERR_OK example_env, EERR_TIMEOUT example_env, EERR_NACK example_env,
             EERR_FAULT example_env]
   \<and> trace (cliSave example_env None (cli_init example_cfg))
       = [Puts (''Writing EEPROM...'' @ CRLF), EepromWriteCfg, Puts (''OK'' @ CRLF),
          CoTickDelay_S2ST 1, WriteAIRCR 0x05FA0004]
   \<and> trace (cliSave (example_env\<lparr>eeprom_write_cfg := - 1\<rparr>) None (cli_init example_cfg))
       = [Puts (''Writing EEPROM...'' @ CRLF), EepromWriteCfg,
          Puts (''ERROR: timeout while writing EEPROM'' @ CRLF)]"
proof -
  have d: "distinct [EERR_OK example_env, EERR_TIMEOUT example_env, EERR_NACK example_env,
             EERR_FAULT example_env]"
    by (simp add: example_env_def)
  have d': "distinct [EERR_OK (example_env\<lparr>eeprom_write_cfg := - 1\<rparr>),
      EERR_TIMEOUT (example_env\<lparr>eeprom_write_cfg := - 1\<rparr>),
      EERR_NACK (example_env\<lparr>eeprom_write_cfg := - 1\<rparr>),
      EERR_FAULT (example_env\<lparr>eeprom_write_cfg := - 1\<rparr>)]"
    by (simp add: example_env_def)
  have t: "trace (cli_init example_cfg) = []"
    by (simp add: cli_init_def)
  show ?thesis
    using cliWriteConfig_outcomes [OF d, of "cli_init example_cfg" None]
      cliWriteConfig_outcomes [OF d', of "cli_init example_cfg" None] d t
    by (simp add: example_env_def)
qed

subsection \<open>What the handlers leave alone\<close>

lemma uart_printf_fmt_len [simp]:
  "length (fmt_buf s) = 64 \<Longrightarrow> length (fmt_buf (uart_printf fmt ap s)) = 64"
  by (simp add: uart_printf_fmt_buf)

lemma cliPrompt_simps [simp]:
  "cl_enabled (cliPrompt s) = 1"
  "cl_count (cliPrompt s) = 0"
  "cl_buf (cliPrompt s) = cl_buf s"
  "fmt_buf (cliPrompt s) = fmt_buf s"
  "cfg (cliPrompt s) = cfg s"
  "trace (cliPrompt s) = trace s @ [Puts (CRLF @ ''# '')]"
  by (simp_all add: cliPrompt_def)

lemma cliExit_simps [simp]:
  "cl_enabled (cliExit cmdline s) = 0"
  "cl_count (cliExit cmdline s) = 0"
  "cl_buf (cliExit cmdline s) = cl_buf s"
  "fmt_buf (cliExit cmdline s) = fmt_buf s"
  "cfg (cliExit cmdline s) = cfg s"
  by (simp_all add: cliExit_def)

lemma cliPrintVar_frame [simp]:
  "cl_enabled (cliPrintVar var full s) = cl_enabled s"
  "cl_count (cliPrintVar var full s) = cl_count s"
  "cl_buf (cliPrintVar var full s) = cl_buf s"
  "cfg (cliPrintVar var full s) = cfg s"
  by (simp_all add: cliPrintVar_def split: prod.splits vartype_e.splits)

lemma cliPrintVar_fmt_len [simp]:
  "length (fmt_buf s) = 64 \<Longrightarrow> length (fmt_buf (cliPrintVar var full s)) = 64"
  by (simp add: cliPrintVar_def split: prod.splits vartype_e.splits)

lemma cliSetVar_frame [simp]:
  "cl_enabled (cliSetVar var str s) = cl_enabled s"
  "cl_count (cliSetVar var str s) = cl_count s"
  "cl_buf (cliSetVar var str s) = cl_buf s"
  "fmt_buf (cliSetVar var str s) = fmt_buf s"
  "trace (cliSetVar var str s) = trace s"
  by (simp_all add: cliSetVar_def Let_def split: prod.splits vartype_e.splits)

lemma cliWriteConfig_frame [simp]:
  "cl_enabled (cliWriteConfig e s) = cl_enabled s"
  "cl_count (cliWriteConfig e s) = cl_count s"
  "cl_buf (cliWriteConfig e s) = cl_buf s"
  "fmt_buf (cliWriteConfig e s) = fmt_buf s"
  "cfg (cliWriteConfig e s) = cfg s"
  by (simp_all add: cliWriteConfig_def Let_def)

lemma cliHelp_loop_frame [simp]:
  "cl_enabled (cliHelp_loop cmds s) = cl_enabled s"
  "cl_count (cliHelp_loop cmds s) = cl_count s"
  "cl_buf (cliHelp_loop cmds s) = cl_buf s"
  "cfg (cliHelp_loop cmds s) = cfg s"
  by (induction cmds arbitrary: s; simp)+

lemma cliHelp_loop_fmt_len [simp]:
  "length (fmt_buf s) = 64 \<Longrightarrow> length (fmt_buf (cliHelp_loop cmds s)) = 64"
  by (induction cmds arbitrary: s) simp_all

lemma cliSet_list_frame [simp]:
  "cl_enabled (cliSet_list vals len s) = cl_enabled s"
  "cl_count (cliSet_list vals len s) = cl_count s"
  "cl_buf (cliSet_list vals len s) = cl_buf s"
  "cfg (cliSet_list vals len s) = cfg s"
  by (induction vals arbitrary: s; simp)+

lemma cliSet_list_fmt_len [simp]:
  "length (fmt_buf s) = 64 \<Longrightarrow> length (fmt_buf (cliSet_list vals len s)) = 64"
  by (induction vals arbitrary: s) simp_all

lemma cliSet_assign_frame [simp]:
  "cl_enabled (cliSet_assign vals cmdline eqptr s) = cl_enabled s"
  "cl_count (cliSet_assign vals cmdline eqptr s) = cl_count s"
  "cl_buf (cliSet_assign vals cmdline eqptr s) = cl_buf s"
  by (induction vals arbitrary: s; simp)+

lemma cliSet_assign_fmt_len [simp]:
  "length (fmt_buf s) = 64 \<Longrightarrow> length (fmt_buf (cliSet_assign vals cmdline eqptr s)) = 64"
  by (induction vals arbitrary: s) simp_all

lemma cliSet_frame:
  assumes "cliSet cmdline s = Inr s'"
  shows "cl_enabled s' = cl_enabled s \<and> cl_count s' = cl_count s \<and> cl_buf s' = cl_buf s
         \<and> (length (fmt_buf s) = 64 \<longrightarrow> length (fmt_buf s') = 64)"
  using assms
  by (auto simp add: cliSet_def Let_def split: option.splits if_splits)

lemma call_frame:
  assumes "call f e cmdline s = Inr s'"
  shows "cl_buf s' = cl_buf s
         \<and> (length (fmt_buf s) = 64 \<longrightarrow> length (fmt_buf s') = 64)
         \<and> ((cl_enabled s' = cl_enabled s \<and> cl_count s' = cl_count s)
             \<or> (cl_enabled s' = 0 \<and> cl_count s' = 0))"
proof (cases f)
  case Func_cliSet
  then show ?thesis using assms cliSet_frame [of cmdline s s'] by simp
qed (use assms in \<open>auto simp add: cliDefaults_def cliHelp_def cliInfo_def cliSave_def
       cliUptime_def cliVersion_def cli_print_hwaddr_def\<close>)

subsection \<open>The branches of the input state machine\<close>

lemma cli_feed_enter_frame:
  assumes "cli_feed_enter e s = Inr s'"
  shows "cl_buf s' = replicate 64 NUL
         \<and> cl_count s < length (cl_buf s)
         \<and> (length (fmt_buf s) = 64 \<longrightarrow> length (fmt_buf s') = 64)
         \<and> ((cl_enabled s' = cl_enabled s \<and> cl_count s' = cl_count s)
             \<or> (cl_enabled s' = 0 \<and> cl_count s' = 0))"
proof -
  let ?s2 = "(uartPrint CRLF s)\<lparr>cl_buf := (cl_buf s)[cl_count s := NUL]\<rparr>"
  from assms have b: "cl_count s < length (cl_buf s)"
    by (auto simp add: cli_feed_enter_def buf_write_def Let_def split: if_splits)
  show ?thesis
  proof (cases "bsearch (cstr (cl_buf ?s2)) cmd_table CMD_COUNT cliCompare")
    case None
    with assms b show ?thesis
      by (auto simp add: cli_feed_enter_def buf_write_def Let_def)
  next
    case (Some i)
    with assms b obtain s3 where
      c: "call (cmd_func (cmd_table ! i)) e (Some (strlen (cmd_name (cmd_table ! i)) + 1)) ?s2 = Inr s3"
      and s': "s' = s3\<lparr>cl_buf := replicate 64 NUL\<rparr>"
      by (auto simp add: cli_feed_enter_def buf_write_def Let_def split: sum.splits)
    from call_frame [OF c] s' b show ?thesis by auto
  qed
qed

lemma cli_feed_eol_result:
  "0 < length (cl_buf s) \<Longrightarrow>
   cli_feed_eol c s =
     Inr ((if cl_enabled s \<noteq> 0 then cliPrompt s else s)
            \<lparr>cl_buf := (cl_buf s)[0 := c]\<rparr>)"
  by (simp add: cli_feed_eol_def buf_write_def Let_def)


lemma cli_feed_disabled:
  "cl_enabled s = 0 \<Longrightarrow> c \<noteq> CR \<Longrightarrow> c \<noteq> LF \<Longrightarrow> cli_feed e c s = Inr s"
  by (simp add: cli_feed_def)

lemma cli_feed_tab:
  "cl_enabled s \<noteq> 0 \<Longrightarrow> c = TAB \<or> c = CHR ''?'' \<Longrightarrow> cli_feed e c s = Inr (s\<lparr>cl_enabled := 1\<rparr>)"
  by (auto simp add: cli_feed_def Let_def)

lemma cli_feed_eot:
  "cl_enabled s \<noteq> 0 \<Longrightarrow> cl_count s = 0 \<Longrightarrow>
   cli_feed e EOT s = Inr (cliExit (Some 0) (s\<lparr>cl_enabled := 1\<rparr>))"
  by (simp add: cli_feed_def Let_def)

lemma cli_feed_ff:
  "cl_enabled s \<noteq> 0 \<Longrightarrow>
   cli_feed e FF s =
     Inr (cliPrompt (uartPrint ([ESC] @ ''[2J'' @ [ESC] @ ''[1;1H'') (s\<lparr>cl_enabled := 1\<rparr>)))"
  by (simp add: cli_feed_def Let_def)

lemma cli_feed_newline_empty:
  "c = LF \<or> c = CR \<Longrightarrow> cl_count s = 0 \<Longrightarrow>
   cli_feed e c s =
     (if c = LF \<and> cl_buf s ! 0 = CR then Inr (s\<lparr>cl_enabled := 1\<rparr>)
      else cli_feed_eol c (s\<lparr>cl_enabled := 1\<rparr>))"
  by (auto simp add: cli_feed_def Let_def)

lemma cli_feed_newline_line:
  "c = LF \<or> c = CR \<Longrightarrow> cl_count s \<noteq> 0 \<Longrightarrow>
   cli_feed e c s =
     (case cli_feed_enter e (s\<lparr>cl_enabled := 1\<rparr>) of
        Inl f \<Rightarrow> Inl f
      | Inr s1 \<Rightarrow> cli_feed_eol c s1)"
  by (auto simp add: cli_feed_def Let_def)

lemma cli_feed_erase:
  "cl_enabled s \<noteq> 0 \<Longrightarrow> c = BS \<or> c = DEL \<Longrightarrow>
   cli_feed e c s =
     (if cl_count s \<noteq> 0 then
        (case buf_write (cl_buf s) (cl_count s - 1) NUL of
           Inl f \<Rightarrow> Inl f
         | Inr b \<Rightarrow>
             Inr (uartPrint [BS, CHR '' '', BS]
                    (s\<lparr>cl_enabled := 1, cl_count := cl_count s - 1, cl_buf := b\<rparr>)))
      else Inr (s\<lparr>cl_enabled := 1\<rparr>))"
  by (auto simp add: cli_feed_def Let_def split: sum.splits)

lemma printable_not_control:
  assumes "32 \<le> (of_char c :: nat)" and "(of_char c :: nat) \<le> 126"
  shows "c \<noteq> TAB" "c \<noteq> EOT" "c \<noteq> FF" "c \<noteq> LF" "c \<noteq> CR" "c \<noteq> BS" "c \<noteq> DEL" "c \<noteq> NUL"
  using assms by auto

lemma cli_feed_printable:
  assumes "cl_enabled s \<noteq> 0" and "32 \<le> (of_char c :: nat)" and "(of_char c :: nat) \<le> 126"
    and "c \<noteq> CHR ''?''"
  shows "cli_feed e c s =
     (if cl_count s < 64 \<and> \<not> (cl_count s = 0 \<and> c = CHR '' '') then
        (case buf_write (cl_buf s) (cl_count s) c of
           Inl f \<Rightarrow> Inl f
         | Inr b \<Rightarrow>
             Inr (serial_putc c (s\<lparr>cl_enabled := 1, cl_buf := b, cl_count := cl_count s + 1\<rparr>)))
      else Inr (s\<lparr>cl_enabled := 1\<rparr>))"
  using assms printable_not_control [OF assms(2,3)]
  by (simp add: cli_feed_def Let_def split: sum.splits)

lemma cli_feed_ignored:
  assumes "cl_enabled s \<noteq> 0" and "c \<noteq> TAB" and "c \<noteq> CHR ''?''" and "\<not> (cl_count s = 0 \<and> c = EOT)"
    and "c \<noteq> FF" and "c \<noteq> LF" and "c \<noteq> CR" and "c \<noteq> BS" and "c \<noteq> DEL"
    and "\<not> (32 \<le> (of_char c :: nat) \<and> (of_char c :: nat) \<le> 126)"
  shows "cli_feed e c s = Inr (s\<lparr>cl_enabled := 1\<rparr>)"
proof (cases "32 \<le> (of_char c :: nat)")
  case True
  with assms(10) have "\<not> (of_char c :: nat) \<le> 126" by simp
  with assms(1-9) show ?thesis
    by (cases "cl_count s = 0") (simp_all add: cli_feed_def Let_def)
next
  case False
  with assms(1-9) show ?thesis
    by (cases "cl_count s = 0") (simp_all add: cli_feed_def Let_def)
qed

subsection \<open>The invariant\<close>

lemma cli_inv_enable: "cli_inv s \<Longrightarrow> cli_inv (s\<lparr>cl_enabled := 1\<rparr>)"
  by (simp add: cli_inv_def)

lemma cli_invI:
  assumes "length (cl_buf s) = 64" and "length (fmt_buf s) = 64" and "cl_count s \<le> 64"
    and "\<forall>c \<in> set (take (cl_count s) (cl_buf s)).
           32 \<le> (of_char c :: nat) \<and> (of_char c :: nat) \<le> 126"
    and "cl_enabled s = 0 \<longrightarrow> cl_count s = 0"
  shows "cli_inv s"
  using assms by (simp add: cli_inv_def)

lemma cli_inv_reset:
  assumes "length (cl_buf s) = 64" and "length (fmt_buf s) = 64" and "cl_count s = 0"
  shows "cli_inv s"
  using assms by (simp add: cli_inv_def)

lemma cli_feed_eol_inv:
  assumes "length (cl_buf s) = 64" and "length (fmt_buf s) = 64"
    and "cl_enabled s = 0 \<longrightarrow> cl_count s = 0"
    and "cli_feed_eol c s = Inr s'"
  shows "cli_inv s' \<and> cl_count s' = 0"
proof -
  from assms(1) have "0 < length (cl_buf s)" by simp
  from cli_feed_eol_result [OF this, of c] assms(4)
  have s': "s' = (if cl_enabled s \<noteq> 0 then cliPrompt s else s)\<lparr>cl_buf := (cl_buf s)[0 := c]\<rparr>"
    by simp
  have "length (cl_buf s') = 64" "length (fmt_buf s') = 64" "cl_count s' = 0"
    using assms(1,2,3) by (simp_all add: s')
  then show ?thesis by (simp add: cli_inv_reset)
qed

lemma cli_feed_inv:
  assumes "cli_inv s" and "cli_feed e c s = Inr s'"
  shows "cli_inv s'"
proof (cases "cl_enabled s = 0 \<and> c \<noteq> CR \<and> c \<noteq> LF")
  case True
  with assms show ?thesis by (simp add: cli_feed_disabled)
next
  case en: False
  let ?s = "s\<lparr>cl_enabled := 1\<rparr>"
  have inv1: "cli_inv ?s" using assms(1) by (rule cli_inv_enable)
  have len: "length (cl_buf s) = 64" "length (fmt_buf s) = 64" "cl_count s \<le> 64"
    using assms(1) by (simp_all add: cli_inv_def)
  show ?thesis
  proof (cases "c = LF \<or> c = CR")
    case nl: True
    show ?thesis
    proof (cases "cl_count s = 0")
      case True
      show ?thesis
      proof (cases "c = LF \<and> cl_buf s ! 0 = CR")
        case True
        with assms(2) nl \<open>cl_count s = 0\<close> inv1 show ?thesis
          by (simp add: cli_feed_newline_empty)
      next
        case False
        with assms(2) nl \<open>cl_count s = 0\<close>
        have "cli_feed_eol c ?s = Inr s'"
          by (simp add: cli_feed_newline_empty)
        from cli_feed_eol_inv [OF _ _ _ this] len show ?thesis by simp
      qed
    next
      case False
      with nl assms(2) obtain s1 where
        e1: "cli_feed_enter e ?s = Inr s1" and e2: "cli_feed_eol c s1 = Inr s'"
        by (auto simp add: cli_feed_newline_line split: sum.splits)
      from cli_feed_enter_frame [OF e1] len
      have f: "length (cl_buf s1) = 64" "length (fmt_buf s1) = 64"
        "cl_enabled s1 = 0 \<longrightarrow> cl_count s1 = 0"
        by auto
      from cli_feed_eol_inv [OF f e2] show ?thesis by simp
    qed
  next
    case nonl: False
    with en have en': "cl_enabled s \<noteq> 0" by auto
    show ?thesis
    proof (cases "c = BS \<or> c = DEL")
      case True
      show ?thesis
      proof (cases "cl_count s = 0")
        case True
        with assms(2) en' \<open>c = BS \<or> c = DEL\<close> inv1 show ?thesis
          by (simp add: cli_feed_erase)
      next
        case False
        with len have lt: "cl_count s - 1 < length (cl_buf s)" by simp
        from False assms(2) en' \<open>c = BS \<or> c = DEL\<close> lt
        have s': "s' = uartPrint [BS, CHR '' '', BS]
                    (s\<lparr>cl_enabled := 1, cl_count := cl_count s - 1,
                       cl_buf := (cl_buf s)[cl_count s - 1 := NUL]\<rparr>)"
          by (simp add: cli_feed_erase buf_write_def)
        have sub: "set (take (cl_count s - 1) ((cl_buf s)[cl_count s - 1 := NUL]))
                \<subseteq> set (take (cl_count s) (cl_buf s))"
          by (simp add: set_take_subset_set_take)
        have pr: "\<forall>c \<in> set (take (cl_count s) (cl_buf s)).
                    32 \<le> (of_char c :: nat) \<and> (of_char c :: nat) \<le> 126"
          using assms(1) by (simp add: cli_inv_def)
        show ?thesis
        proof (rule cli_invI)
          show "\<forall>c \<in> set (take (cl_count s') (cl_buf s')).
                  32 \<le> (of_char c :: nat) \<and> (of_char c :: nat) \<le> 126"
            using sub pr unfolding s' by (simp add: subset_iff)
        qed (use len in \<open>simp_all add: s'\<close>)
      qed
    next
      case nobs: False
      show ?thesis
      proof (cases "c = TAB \<or> c = CHR ''?''")
        case True
        with assms(2) en' inv1 show ?thesis by (simp add: cli_feed_tab)
      next
        case notab: False
        show ?thesis
        proof (cases "c = FF")
          case True
          with assms(2) en' len show ?thesis
            by (auto simp add: cli_feed_ff intro: cli_inv_reset)
        next
          case noff: False
          show ?thesis
          proof (cases "cl_count s = 0 \<and> c = EOT")
            case True
            with assms(2) en' len show ?thesis
              by (auto simp add: cli_feed_eot intro: cli_inv_reset)
          next
            case noeot: False
            show ?thesis
            proof (cases "32 \<le> (of_char c :: nat) \<and> (of_char c :: nat) \<le> 126")
              case False
              with assms(2) en' nonl nobs notab noff noeot inv1 show ?thesis
                by (simp add: cli_feed_ignored)
            next
              case pr: True
              show ?thesis
              proof (cases "cl_count s < 64 \<and> \<not> (cl_count s = 0 \<and> c = CHR '' '')")
                case False
                with assms(2) en' pr notab inv1 show ?thesis
                  by (auto simp add: cli_feed_printable)
              next
                case True
                with assms(2) en' pr notab len
                have s': "s' = serial_putc c (s\<lparr>cl_enabled := 1,
                            cl_buf := (cl_buf s)[cl_count s := c], cl_count := cl_count s + 1\<rparr>)"
                  by (simp add: cli_feed_printable buf_write_def)
                from True len
                have tk: "take (Suc (cl_count s)) ((cl_buf s)[cl_count s := c])
                        = take (cl_count s) (cl_buf s) @ [c]"
                  by (simp add: take_Suc_conv_app_nth)
                have old: "\<forall>c \<in> set (take (cl_count s) (cl_buf s)).
                    32 \<le> (of_char c :: nat) \<and> (of_char c :: nat) \<le> 126"
                  using assms(1) by (simp add: cli_inv_def)
                show ?thesis
                proof (rule cli_invI)
                  show "\<forall>c \<in> set (take (cl_count s') (cl_buf s')).
                          32 \<le> (of_char c :: nat) \<and> (of_char c :: nat) \<le> 126"
                    using old pr unfolding s' by (simp add: serial_putc_def tk)
                qed (use len True in \<open>simp_all add: s' serial_putc_def\<close>)
              qed
            qed
          qed
        qed
      qed
    qed
  qed
qed

lemma cli_init_inv: "cli_inv (cli_init c)"
  by (simp add: cli_inv_def cli_init_def)

lemma cli_feed_all_inv:
  "cli_inv s \<Longrightarrow> cli_feed_all e cs s = Inr s' \<Longrightarrow> cli_inv s'"
proof (induction cs arbitrary: s)
  case Nil
  then show ?case by simp
next
  case (Cons c cs)
  from Cons.prems(2) obtain s1 where
    a: "cli_feed e c s = Inr s1" and b: "cli_feed_all e cs s1 = Inr s'"
    by (auto split: sum.splits)
  from cli_feed_inv [OF Cons.prems(1) a] have "cli_inv s1" .
  from Cons.IH [OF this b] show ?case .
qed

subsection \<open>Comparison and table search\<close>

lemma tolower_NUL_iff [simp]: "tolower c = NUL \<longleftrightarrow> c = NUL"
  by (auto simp add: tolower_def char_of_eq_iff)

lemma tolower_NUL [simp]: "tolower NUL = NUL"
  by (simp add: tolower_def)

lemma NUL_eq_tolower_iff [simp]: "NUL = tolower c \<longleftrightarrow> c = NUL"
  by (subst eq_commute) (rule tolower_NUL_iff)

lemma of_char_eq_0_iff [simp]: "(of_char c :: nat) = 0 \<longleftrightarrow> c = NUL"
  using of_char_eq_iff [of c NUL, where ?'a = nat] by simp

lemma of_char_diff_0_iff: "int (of_char a) - int (of_char b) = 0 \<longleftrightarrow> a = b"
  by simp

lemma strncasecmp_eq_0_iff:
  "NUL \<notin> set b \<Longrightarrow>
   strncasecmp a b (length b) = 0
     \<longleftrightarrow> length b \<le> length a \<and> map tolower (take (length b) a) = map tolower b"
proof (induction b arbitrary: a)
  case Nil
  then show ?case by simp
next
  case (Cons y ys)
  show ?case
  proof (cases a)
    case Nil
    from Cons.prems have "y \<noteq> NUL" by auto
    with Nil show ?thesis by (simp add: Let_def)
  next
    case (Cons x xs)
    from Cons.prems have y: "y \<noteq> NUL" and ys: "NUL \<notin> set ys" by auto
    show ?thesis
    proof (cases "tolower x = tolower y")
      case True
      with y have "tolower x \<noteq> NUL" by simp
      with True Cons Cons.IH [OF ys, of xs] show ?thesis by (simp add: Let_def)
    next
      case False
      with Cons show ?thesis by (simp add: Let_def)
    qed
  qed
qed

lemma bsearch_range_Some:
  "bsearch_range cmp l u = Some i \<Longrightarrow> l \<le> i \<and> i < u \<and> cmp i = 0"
proof (induction cmp l u rule: bsearch_range.induct)
  case (1 cmp l u)
  show ?case
  proof (cases "l < u")
    case False
    with "1.prems" show ?thesis by (simp add: bsearch_range.simps)
  next
    case lu: True
    let ?m = "(l + u) div 2"
    show ?thesis
    proof (cases "cmp ?m < 0")
      case True
      with lu "1.prems" have "bsearch_range cmp l ?m = Some i"
        by (simp add: bsearch_range.simps [of cmp l u])
      from "1.IH"(1) [OF lu True this] lu show ?thesis by linarith
    next
      case nl: False
      show ?thesis
      proof (cases "cmp ?m > 0")
        case True
        with nl lu "1.prems" have "bsearch_range cmp (?m + 1) u = Some i"
          by (simp add: bsearch_range.simps [of cmp l u])
        from "1.IH"(2) [OF lu nl True this] lu show ?thesis by linarith
      next
        case False
        with nl lu "1.prems" have "i = ?m" "cmp ?m = 0"
          by (simp_all add: bsearch_range.simps [of cmp l u])
        with lu show ?thesis by auto
      qed
    qed
  qed
qed

lemma bsearch_range_empty: "l = u \<Longrightarrow> bsearch_range cmp l u = None"
  by (simp add: bsearch_range.simps)

lemma bsearch_range_1:
  "bsearch_range cmp l (Suc l) = (if cmp l < 0 then None else if cmp l > 0 then None else Some l)"
  by (subst bsearch_range.simps) (simp add: bsearch_range_empty)

lemma bsearch_range_8:
  "bsearch_range cmp 0 8 =
    (if cmp 4 < 0 then
       (if cmp 2 < 0 then
          (if cmp 1 < 0 then (if cmp 0 < 0 then None else if cmp 0 > 0 then None else Some 0)
           else if cmp 1 > 0 then None else Some 1)
        else if cmp 2 > 0 then (if cmp 3 < 0 then None else if cmp 3 > 0 then None else Some 3)
        else Some 2)
     else if cmp 4 > 0 then
       (if cmp 6 < 0 then (if cmp 5 < 0 then None else if cmp 5 > 0 then None else Some 5)
        else if cmp 6 > 0 then (if cmp 7 < 0 then None else if cmp 7 > 0 then None else Some 7)
        else Some 6)
     else Some 4)"
proof -
  have r01: "bsearch_range cmp 0 1 = (if cmp 0 < 0 then None else if cmp 0 > 0 then None else Some 0)"
    using bsearch_range_1 [of cmp 0] by simp
  have r34: "bsearch_range cmp 3 4 = (if cmp 3 < 0 then None else if cmp 3 > 0 then None else Some 3)"
    using bsearch_range_1 [of cmp 3] by simp
  have r56: "bsearch_range cmp 5 6 = (if cmp 5 < 0 then None else if cmp 5 > 0 then None else Some 5)"
    using bsearch_range_1 [of cmp 5] by simp
  have r78: "bsearch_range cmp 7 8 = (if cmp 7 < 0 then None else if cmp 7 > 0 then None else Some 7)"
    using bsearch_range_1 [of cmp 7] by simp
  have r02: "bsearch_range cmp 0 2 =
      (if cmp 1 < 0 then bsearch_range cmp 0 1 else if cmp 1 > 0 then None else Some 1)"
    by (subst bsearch_range.simps) (simp add: bsearch_range_empty)
  have r04: "bsearch_range cmp 0 4 =
      (if cmp 2 < 0 then bsearch_range cmp 0 2
       else if cmp 2 > 0 then bsearch_range cmp 3 4 else Some 2)"
    by (subst bsearch_range.simps) simp
  have r58: "bsearch_range cmp 5 8 =
      (if cmp 6 < 0 then bsearch_range cmp 5 6
       else if cmp 6 > 0 then bsearch_range cmp 7 8 else Some 6)"
    by (subst bsearch_range.simps) simp
  have r08: "bsearch_range cmp 0 8 =
      (if cmp 4 < 0 then bsearch_range cmp 0 4
       else if cmp 4 > 0 then bsearch_range cmp 5 8 else Some 4)"
    by (subst bsearch_range.simps) simp
  show ?thesis
    unfolding r08 r04 r58 r02 r01 r34 r56 r78 ..
qed

lemma cmd_table_nth:
  "cmd_table ! 0 = \<lparr>cmd_name = ''defaults'', cmd_param = ''reset to factory defaults and reboot'',
      cmd_func = Func_cliDefaults\<rparr>"
  "cmd_table ! 1 = \<lparr>cmd_name = ''exit'', cmd_param = ''leave command mode'', cmd_func = Func_cliExit\<rparr>"
  "cmd_table ! Suc 0 = \<lparr>cmd_name = ''exit'', cmd_param = ''leave command mode'', cmd_func = Func_cliExit\<rparr>"
  "cmd_table ! 2 = \<lparr>cmd_name = ''help'', cmd_param = [], cmd_func = Func_cliHelp\<rparr>"
  "cmd_table ! 3 = \<lparr>cmd_name = ''info'', cmd_param = ''show runtime information'', cmd_func = Func_cliInfo\<rparr>"
  "cmd_table ! 4 = \<lparr>cmd_name = ''save'', cmd_param = ''save changes and reboot'', cmd_func = Func_cliSave\<rparr>"
  "cmd_table ! 5 = \<lparr>cmd_name = ''set'', cmd_param = ''name=value or blank or * for list'',
      cmd_func = Func_cliSet\<rparr>"
  "cmd_table ! 6 = \<lparr>cmd_name = ''uptime'', cmd_param = ''show the system uptime'', cmd_func = Func_cliUptime\<rparr>"
  "cmd_table ! 7 = \<lparr>cmd_name = ''version'', cmd_param = ''show version'', cmd_func = Func_cliVersion\<rparr>"
  by (simp_all add: cmd_table_def)

lemma CMD_COUNT_8: "CMD_COUNT = 8"
  by (simp add: CMD_COUNT_def cmd_table_def)

lemma tolower_lower: "97 \<le> (of_char c :: nat) \<Longrightarrow> tolower c = c"
  by (simp add: tolower_def)

lemma strncasecmp_first:
  "b \<noteq> [] \<Longrightarrow> strncasecmp a b (length b) = 0 \<Longrightarrow> tolower (deref a) = tolower (hd b)"
  by (cases b) (auto simp add: Let_def split: if_splits)

lemma strncasecmp_differ:
  "b \<noteq> [] \<Longrightarrow> tolower (deref a) \<noteq> tolower (hd b) \<Longrightarrow>
   strncasecmp a b (length b) = int (of_char (tolower (deref a))) - int (of_char (tolower (hd b)))"
  by (cases b) (auto simp add: Let_def)

lemma strncasecmp_tail:
  "y \<noteq> NUL \<Longrightarrow> strncasecmp a (y # ys) (Suc (length ys)) = 0 \<Longrightarrow>
   strncasecmp (tl a) ys (length ys) = 0"
  by (auto simp add: Let_def split: if_splits)

lemma cliCompare_other:
  assumes "cliCompare key e = 0" and "cmd_name e \<noteq> []" and "cmd_name e' \<noteq> []"
    and "tolower (hd (cmd_name e)) \<noteq> tolower (hd (cmd_name e'))"
  shows "cliCompare key e' =
           int (of_char (tolower (hd (cmd_name e)))) - int (of_char (tolower (hd (cmd_name e'))))"
proof -
  from assms(1,2) have k: "tolower (deref key) = tolower (hd (cmd_name e))"
    unfolding cliCompare_def by (rule strncasecmp_first [rotated])
  with assms(4) have "tolower (deref key) \<noteq> tolower (hd (cmd_name e'))" by simp
  from strncasecmp_differ [OF assms(3) this] k show ?thesis
    by (simp add: cliCompare_def)
qed

lemma cliCompare_set_save:
  assumes "cliCompare key (cmd_table ! 5) = 0"
  shows "cliCompare key (cmd_table ! 4) > 0"
proof -
  from assms have s: "strncasecmp key (CHR ''s'' # ''et'') (Suc (length ''et'')) = 0"
    by (simp add: cliCompare_def cmd_table_nth)
  from strncasecmp_first [of "''set''" key] s
  have k1: "tolower (deref key) = CHR ''s''"
    by (simp add: tolower_lower)
  from strncasecmp_tail [OF _ s] have "strncasecmp (tl key) ''et'' (length ''et'') = 0"
    by simp
  from strncasecmp_first [OF _ this]
  have k2: "tolower (deref (tl key)) = CHR ''e''"
    by (simp add: tolower_lower)
  note k = k1 k2
  have "strncasecmp key ''save'' (Suc (Suc (Suc (Suc 0)))) = 4"
    by (simp add: Let_def tolower_lower k)
  then show ?thesis
    by (simp add: cliCompare_def cmd_table_nth)
qed

lemma bsearch_cmd_table_complete:
  assumes "i < CMD_COUNT" and "cliCompare key (cmd_table ! i) = 0"
  shows "bsearch key cmd_table CMD_COUNT cliCompare = Some i"
proof -
  note o = cliCompare_other [OF assms(2)]
  from assms(1) have "i < 8" by (simp only: CMD_COUNT_8)
  then consider (at_defaults) "i = 0" | (at_exit) "i = 1" | (at_help) "i = 2" | (at_info) "i = 3"
    | (at_save) "i = 4" | (at_set) "i = 5" | (at_uptime) "i = 6" | (at_version) "i = 7"
    by linarith
  then show ?thesis
  proof cases
    case at_defaults
    have "cliCompare key (cmd_table ! 4) < 0" "cliCompare key (cmd_table ! 2) < 0"
      "cliCompare key (cmd_table ! 1) < 0"
      by (simp_all add: o at_defaults cmd_table_nth tolower_lower)
    with assms(2) show ?thesis
      by (simp add: bsearch_def CMD_COUNT_8 bsearch_range_8 at_defaults)
  next
    case at_exit
    have "cliCompare key (cmd_table ! 4) < 0" "cliCompare key (cmd_table ! 2) < 0"
      by (simp_all add: o at_exit cmd_table_nth tolower_lower)
    with assms(2) show ?thesis
      by (simp add: bsearch_def CMD_COUNT_8 bsearch_range_8 at_exit)
  next
    case at_help
    have "cliCompare key (cmd_table ! 4) < 0"
      by (simp_all add: o at_help cmd_table_nth tolower_lower)
    with assms(2) show ?thesis
      by (simp add: bsearch_def CMD_COUNT_8 bsearch_range_8 at_help)
  next
    case at_info
    have "cliCompare key (cmd_table ! 4) < 0" "cliCompare key (cmd_table ! 2) > 0"
      by (simp_all add: o at_info cmd_table_nth tolower_lower)
    with assms(2) show ?thesis
      by (simp add: bsearch_def CMD_COUNT_8 bsearch_range_8 at_info)
  next
    case at_save
    with assms(2) show ?thesis
      by (simp add: bsearch_def CMD_COUNT_8 bsearch_range_8)
  next
    case at_set
    have "cliCompare key (cmd_table ! 4) > 0"
      using assms(2) unfolding at_set by (rule cliCompare_set_save)
    moreover have "cliCompare key (cmd_table ! 6) < 0"
      by (simp_all add: o at_set cmd_table_nth tolower_lower)
    ultimately show ?thesis using assms(2)
      by (simp add: bsearch_def CMD_COUNT_8 bsearch_range_8 at_set)
  next
    case at_uptime
    have "cliCompare key (cmd_table ! 4) > 0"
      by (simp_all add: o at_uptime cmd_table_nth tolower_lower)
    with assms(2) show ?thesis
      by (simp add: bsearch_def CMD_COUNT_8 bsearch_range_8 at_uptime)
  next
    case at_version
    have "cliCompare key (cmd_table ! 4) > 0" "cliCompare key (cmd_table ! 6) > 0"
      by (simp_all add: o at_version cmd_table_nth tolower_lower)
    with assms(2) show ?thesis
      by (simp add: bsearch_def CMD_COUNT_8 bsearch_range_8 at_version)
  qed
qed

lemma bsearch_cmd_table_iff:
  "bsearch key cmd_table CMD_COUNT cliCompare = Some i
     \<longleftrightarrow> i < CMD_COUNT \<and> cliCompare key (cmd_table ! i) = 0"
proof
  assume "bsearch key cmd_table CMD_COUNT cliCompare = Some i"
  from bsearch_range_Some [OF this [unfolded bsearch_def]]
  show "i < CMD_COUNT \<and> cliCompare key (cmd_table ! i) = 0" by simp
next
  assume "i < CMD_COUNT \<and> cliCompare key (cmd_table ! i) = 0"
  then show "bsearch key cmd_table CMD_COUNT cliCompare = Some i"
    by (simp add: bsearch_cmd_table_complete)
qed

subsection \<open>Dispatch and feeding whole lines\<close>

lemma cliCompare_prefix_match:
  "i < CMD_COUNT \<Longrightarrow>
   cliCompare line (cmd_table ! i) = 0 \<longleftrightarrow> prefix_match (cmd_name (cmd_table ! i)) line"
proof -
  assume "i < CMD_COUNT"
  then have "NUL \<notin> set (cmd_name (cmd_table ! i))"
    unfolding CMD_COUNT_8
    by (auto simp add: less_Suc_eq numeral_eq_Suc cmd_table_def)
  from strncasecmp_eq_0_iff [OF this] show ?thesis
    by (simp add: cliCompare_def prefix_match_def)
qed

lemma bsearch_prefix_match:
  "bsearch line cmd_table CMD_COUNT cliCompare = Some i
     \<longleftrightarrow> i < CMD_COUNT \<and> prefix_match (cmd_name (cmd_table ! i)) line"
  using cliCompare_prefix_match [of i line] by (auto simp add: bsearch_cmd_table_iff)

lemma bsearch_no_match:
  "bsearch line cmd_table CMD_COUNT cliCompare = None
     \<longleftrightarrow> (\<forall>i < CMD_COUNT. \<not> prefix_match (cmd_name (cmd_table ! i)) line)"
proof (cases "bsearch line cmd_table CMD_COUNT cliCompare")
  case None
  have "\<not> prefix_match (cmd_name (cmd_table ! i)) line" if "i < CMD_COUNT" for i
  proof
    assume "prefix_match (cmd_name (cmd_table ! i)) line"
    with that have "bsearch line cmd_table CMD_COUNT cliCompare = Some i"
      by (simp add: bsearch_prefix_match)
    with None show False by simp
  qed
  with None show ?thesis by simp
next
  case (Some i)
  with bsearch_prefix_match [of line i] show ?thesis by auto
qed

lemma buf_terminate:
  assumes "n < length buf" and "NUL \<notin> set (take n buf)"
  shows "cstr (buf[n := NUL]) = take n buf"
proof -
  from assms(1) have "buf[n := NUL] = take n buf @ NUL # drop (Suc n) buf"
    by (rule upd_conv_take_nth_drop)
  with assms(2) show ?thesis by (simp add: cstr_terminated cstr_no_NUL)
qed

lemma cli_inv_line_no_NUL: "cli_inv s \<Longrightarrow> NUL \<notin> set (take (cl_count s) (cl_buf s))"
  by (auto simp add: cli_inv_def)

lemma cli_feed_enter_dispatch:
  assumes "cl_count s < length (cl_buf s)" and "NUL \<notin> set (take (cl_count s) (cl_buf s))"
  shows "cli_feed_enter e s =
    (case (case bsearch (take (cl_count s) (cl_buf s)) cmd_table CMD_COUNT cliCompare of
             Some i \<Rightarrow>
               call (cmd_func (cmd_table ! i)) e (Some (strlen (cmd_name (cmd_table ! i)) + 1))
                 ((uartPrint CRLF s)\<lparr>cl_buf := (cl_buf s)[cl_count s := NUL]\<rparr>)
           | None \<Rightarrow>
               Inr (uartPrint (''ERR: Unknown command, try '' @ [CHR 0x27] @ ''help''
                               @ [CHR 0x27] @ CRLF)
                      ((uartPrint CRLF s)\<lparr>cl_buf := (cl_buf s)[cl_count s := NUL]\<rparr>))) of
       Inl f \<Rightarrow> Inl f
     | Inr s3 \<Rightarrow> Inr (s3\<lparr>cl_buf := replicate 64 NUL\<rparr>))"
  using assms by (simp add: cli_feed_enter_def buf_write_def Let_def buf_terminate)

lemma cli_init_ready: "cli_feed e CR (cli_init c) = Inr (cli_ready c)"
  by (simp add: cli_feed_newline_empty cli_feed_eol_result cli_init_def cli_ready_def
        cliPrompt_def uartPrint_def serial_puts_def numeral_eq_Suc)

lemma cli_ready_inv: "cli_inv (cli_ready c)"
  by (simp add: cli_inv_def cli_ready_def)

lemma cli_feed_all_append:
  "cli_feed_all e (xs @ ys) s =
     (case cli_feed_all e xs s of Inl f \<Rightarrow> Inl f | Inr s1 \<Rightarrow> cli_feed_all e ys s1)"
  by (induction xs arbitrary: s) (simp_all split: sum.splits)

lemma cli_feed_all_printables:
  assumes "cl_enabled s = 1"
    and "\<forall>c \<in> set cs. 32 \<le> (of_char c :: nat) \<and> (of_char c :: nat) \<le> 126 \<and> c \<noteq> CHR ''?''"
    and "cl_count s + length cs \<le> length (cl_buf s)" and "length (cl_buf s) \<le> 64"
    and "cl_count s = 0 \<longrightarrow> cs = [] \<or> hd cs \<noteq> CHR '' ''"
  shows "cli_feed_all e cs s =
     Inr (s\<lparr>cl_count := cl_count s + length cs,
            cl_buf := take (cl_count s) (cl_buf s) @ cs @ drop (cl_count s + length cs) (cl_buf s),
            trace := trace s @ map Putc cs\<rparr>)"
  using assms
proof (induction cs arbitrary: s)
  case Nil
  then show ?case by simp
next
  case (Cons c cs)
  let ?s1 = "s\<lparr>cl_count := Suc (cl_count s), cl_buf := (cl_buf s)[cl_count s := c],
                trace := trace s @ [Putc c]\<rparr>"
  from Cons.prems have c: "32 \<le> (of_char c :: nat)" "(of_char c :: nat) \<le> 126" "c \<noteq> CHR ''?''"
    and lt: "cl_count s < length (cl_buf s)" "cl_count s < 64"
    and sp: "\<not> (cl_count s = 0 \<and> c = CHR '' '')"
    by auto
  have en: "s\<lparr>cl_enabled := 1\<rparr> = s" using Cons.prems(1) by simp
  have step: "cli_feed e c s = Inr ?s1"
    using c lt sp Cons.prems(1) en
    by (simp add: cli_feed_printable buf_write_def serial_putc_def)
  have "cli_feed_all e cs ?s1 =
     Inr (?s1\<lparr>cl_count := cl_count ?s1 + length cs,
            cl_buf := take (cl_count ?s1) (cl_buf ?s1) @ cs
                        @ drop (cl_count ?s1 + length cs) (cl_buf ?s1),
            trace := trace ?s1 @ map Putc cs\<rparr>)"
    using Cons.prems by (intro Cons.IH) auto
  moreover have "take (Suc (cl_count s)) ((cl_buf s)[cl_count s := c])
                   = take (cl_count s) (cl_buf s) @ [c]"
    using lt by (simp add: take_Suc_conv_app_nth)
  ultimately show ?case
    using step by simp
qed

subsection \<open>Leaving and re-entering command mode\<close>

lemma cli_feed_all_disabled:
  "cl_enabled s = 0 \<Longrightarrow> CR \<notin> set cs \<Longrightarrow> LF \<notin> set cs \<Longrightarrow> cli_feed_all e cs s = Inr s"
  by (induction cs) (auto simp add: cli_feed_disabled)

lemma cli_feed_reenable:
  assumes "cli_inv s" and "cl_enabled s = 0" and "c = CR \<or> c = LF"
  shows "\<exists>s'. cli_feed e c s = Inr s' \<and> cl_enabled s' = 1 \<and> cl_count s' = 0 \<and> cfg s' = cfg s"
proof -
  from assms(1,2) have z: "cl_count s = 0" and l: "0 < length (cl_buf s)"
    by (simp_all add: cli_inv_def)
  from l have l1: "0 < length (cl_buf (s\<lparr>cl_enabled := 1\<rparr>))" by simp
  from assms(3) have "c = LF \<or> c = CR" by auto
  from cli_feed_newline_empty [OF this z, of e] z show ?thesis
    by (simp add: cli_feed_eol_result [OF l1])
qed

lemma cli_feed_exit_by_name:
  assumes "cli_inv s" and "cl_count s \<noteq> 0" and "cl_count s < 64"
    and "prefix_match ''exit'' (take (cl_count s) (cl_buf s))" and "c = CR \<or> c = LF"
  shows "cli_feed e c s =
     Inr ((cliExit (Some 5)
            ((uartPrint CRLF (s\<lparr>cl_enabled := 1\<rparr>))\<lparr>cl_buf := (cl_buf s)[cl_count s := NUL]\<rparr>))
          \<lparr>cl_buf := (replicate 64 NUL)[0 := c]\<rparr>)"
proof -
  let ?s = "s\<lparr>cl_enabled := 1\<rparr>"
  from assms(1,3) have lt: "cl_count ?s < length (cl_buf ?s)" by (simp add: cli_inv_def)
  from cli_inv_line_no_NUL [OF assms(1)]
  have nn: "NUL \<notin> set (take (cl_count ?s) (cl_buf ?s))" by simp
  from assms(4)
  have "1 < CMD_COUNT \<and> prefix_match (cmd_name (cmd_table ! 1)) (take (cl_count s) (cl_buf s))"
    by (simp add: CMD_COUNT_8 cmd_table_nth)
  then have "bsearch (take (cl_count s) (cl_buf s)) cmd_table CMD_COUNT cliCompare = Some 1"
    by (simp only: bsearch_prefix_match)
  then have "cli_feed_enter e ?s =
     Inr ((cliExit (Some 5)
            ((uartPrint CRLF ?s)\<lparr>cl_buf := (cl_buf s)[cl_count s := NUL]\<rparr>))
          \<lparr>cl_buf := replicate 64 NUL\<rparr>)"
    by (simp add: cli_feed_enter_dispatch [OF lt nn] cmd_table_nth cliExit_def)
  moreover from assms(5) have "c = LF \<or> c = CR" by auto
  ultimately show ?thesis
    using assms(2) by (simp add: cli_feed_newline_line cli_feed_eol_def buf_write_def)
qed

text \<open>
  C5. In a well-formed state, with \<open>c\<close> a carriage return or newline and \<open>cs\<close> any bytes
  that contain neither: the EOF byte on an empty buffer of an enabled session, and Enter on
  a held line that begins with \<^verbatim>\<open>exit\<close>, both leave the session disabled with the count
  cleared; the bytes \<open>cs\<close> fed afterwards are discarded and leave that state as it is (no
  change to the line buffer, no output, no dispatch); a following \<open>c\<close> enables the session
  again. The same holds of any disabled state.
\<close>

theorem cli_exit_disables:
  assumes "cli_inv s" and "c = CR \<or> c = LF" and "CR \<notin> set cs" and "LF \<notin> set cs"
  shows "(cl_enabled s \<noteq> 0 \<and> cl_count s = 0 \<longrightarrow>
            (\<exists>s'. cli_feed e EOT s = Inr s' \<and> cl_enabled s' = 0 \<and> cl_count s' = 0
                  \<and> cl_buf s' = cl_buf s \<and> cfg s' = cfg s
                  \<and> cli_feed_all e (EOT # cs) s = Inr s'
                  \<and> (\<exists>s''. cli_feed_all e (EOT # cs @ [c]) s = Inr s'' \<and> cl_enabled s'' = 1
                          \<and> cl_count s'' = 0)))
       \<and> (cl_count s \<noteq> 0 \<and> cl_count s < sizeof_cl_buf
            \<and> prefix_match ''exit'' (take (cl_count s) (cl_buf s)) \<longrightarrow>
            (\<exists>s'. cli_feed e c s = Inr s' \<and> cl_enabled s' = 0 \<and> cl_count s' = 0
                  \<and> cl_buf s' = (replicate sizeof_cl_buf NUL)[0 := c] \<and> cfg s' = cfg s
                  \<and> cli_feed_all e (c # cs) s = Inr s'
                  \<and> (\<exists>s''. cli_feed_all e (c # cs @ [c]) s = Inr s'' \<and> cl_enabled s'' = 1
                          \<and> cl_count s'' = 0)))
       \<and> (cl_enabled s = 0 \<longrightarrow>
            cli_feed_all e cs s = Inr s
            \<and> (\<exists>s'. cli_feed e c s = Inr s' \<and> cl_enabled s' = 1 \<and> cl_count s' = 0))"
proof -
  have after: "cli_feed_all e cs s' = Inr s'
      \<and> (\<exists>s''. cli_feed_all e (cs @ [c]) s' = Inr s'' \<and> cl_enabled s'' = 1 \<and> cl_count s'' = 0)"
    if "cli_inv s'" and "cl_enabled s' = 0" for s'
  proof -
    from that(2) assms(3,4) have d: "cli_feed_all e cs s' = Inr s'"
      by (rule cli_feed_all_disabled)
    from cli_feed_reenable [OF that assms(2), of e] d show ?thesis
      by (auto simp add: cli_feed_all_append)
  qed
  have a: ?thesis if "cl_enabled s \<noteq> 0 \<and> cl_count s = 0"
  proof -
    let ?s' = "cliExit (Some 0) (s\<lparr>cl_enabled := 1\<rparr>)"
    from that have f: "cli_feed e EOT s = Inr ?s'" by (simp add: cli_feed_eot)
    from cli_feed_inv [OF assms(1) f] have "cli_inv ?s'" .
    from after [OF this] f that show ?thesis by auto
  qed
  have b: ?thesis if "cl_count s \<noteq> 0 \<and> cl_count s < sizeof_cl_buf
            \<and> prefix_match ''exit'' (take (cl_count s) (cl_buf s))"
  proof -
    let ?s' = "(cliExit (Some 5)
            ((uartPrint CRLF (s\<lparr>cl_enabled := 1\<rparr>))\<lparr>cl_buf := (cl_buf s)[cl_count s := NUL]\<rparr>))
          \<lparr>cl_buf := (replicate 64 NUL)[0 := c]\<rparr>"
    from that assms(1,2) have f: "cli_feed e c s = Inr ?s'"
      by (simp add: cli_feed_exit_by_name)
    from cli_feed_inv [OF assms(1) f] have "cli_inv ?s'" .
    from after [OF this] f that assms(1) show ?thesis by (auto simp add: cli_inv_def)
  qed
  have c: ?thesis if "cl_enabled s = 0"
  proof -
    from after [OF assms(1) that] cli_feed_reenable [OF assms(1) that assms(2), of e] that assms(1)
    show ?thesis by (auto simp add: cli_inv_def)
  qed
  from a b c assms(1) show ?thesis
    by (cases "cl_enabled s = 0"; cases "cl_count s = 0") (auto simp add: cli_inv_def)
qed

lemma cli_holding_simps [simp]:
  "cl_enabled (cli_holding c line) = 1"
  "cl_count (cli_holding c line) = length line"
  "cl_buf (cli_holding c line) = line @ replicate (64 - length line) NUL"
  "fmt_buf (cli_holding c line) = replicate 64 NUL"
  "cfg (cli_holding c line) = c"
  "trace (cli_holding c line) = Puts (CRLF @ ''# '') # map Putc line"
  by (simp_all add: cli_holding_def cli_ready_def)

lemma cli_holding_inv:
  "length line \<le> 64 \<Longrightarrow>
   \<forall>c \<in> set line. 32 \<le> (of_char c :: nat) \<and> (of_char c :: nat) \<le> 126 \<Longrightarrow>
   cli_inv (cli_holding c line)"
  by (simp add: cli_inv_def)

theorem cli_exit_disables_witness:
  "cli_inv (cli_ready example_cfg) \<and> (CR = CR \<or> CR = LF) \<and> CR \<notin> set ''help''
   \<and> LF \<notin> set ''help''
   \<and> cl_enabled (cli_ready example_cfg) \<noteq> 0 \<and> cl_count (cli_ready example_cfg) = 0
   \<and> (\<exists>s'. cli_feed_all example_env (EOT # ''help'') (cli_ready example_cfg) = Inr s'
            \<and> cl_enabled s' = 0 \<and> cl_count s' = 0 \<and> cl_buf s' = cl_buf (cli_ready example_cfg))
   \<and> cli_inv (cli_holding example_cfg ''exit'')
   \<and> cl_count (cli_holding example_cfg ''exit'') \<noteq> 0
   \<and> cl_count (cli_holding example_cfg ''exit'') < sizeof_cl_buf
   \<and> prefix_match ''exit'' (take (cl_count (cli_holding example_cfg ''exit''))
                               (cl_buf (cli_holding example_cfg ''exit'')))
   \<and> (\<exists>s'. cli_feed_all example_env (CR # ''help'') (cli_holding example_cfg ''exit'') = Inr s'
            \<and> cl_enabled s' = 0 \<and> cl_count s' = 0
            \<and> cl_buf s' = (replicate sizeof_cl_buf NUL)[0 := CR])
   \<and> cli_inv (cli_init example_cfg) \<and> cl_enabled (cli_init example_cfg) = 0
   \<and> cli_feed_all example_env ''help'' (cli_init example_cfg) = Inr (cli_init example_cfg)
   \<and> (\<exists>s'. cli_feed example_env CR (cli_init example_cfg) = Inr s' \<and> cl_enabled s' = 1)"
proof -
  have h1: "cli_inv (cli_ready example_cfg)" by (rule cli_ready_inv)
  have h2: "CR = CR \<or> CR = LF" by simp
  have h3: "CR \<notin> set ''help''" "LF \<notin> set ''help''" by simp_all
  have h4: "cl_enabled (cli_ready example_cfg) \<noteq> 0 \<and> cl_count (cli_ready example_cfg) = 0"
    by (simp add: cli_ready_def)
  have h5: "cli_inv (cli_holding example_cfg ''exit'')"
    by (rule cli_holding_inv) simp_all
  have h6: "cl_count (cli_holding example_cfg ''exit'') \<noteq> 0
     \<and> cl_count (cli_holding example_cfg ''exit'') < sizeof_cl_buf
     \<and> prefix_match ''exit'' (take (cl_count (cli_holding example_cfg ''exit''))
                               (cl_buf (cli_holding example_cfg ''exit'')))"
    by (simp add: prefix_match_def)
  have h7: "cli_inv (cli_init example_cfg)" by (rule cli_init_inv)
  have h8: "cl_enabled (cli_init example_cfg) = 0" by (simp add: cli_init_def)
  show ?thesis
    using cli_exit_disables [OF h1 h2 h3, of example_env]
      cli_exit_disables [OF h5 h2 h3, of example_env]
      cli_exit_disables [OF h7 h2 h3, of example_env]
      h1 h2 h3 h4 h5 h6 h7 h8
    by auto
qed

subsection \<open>Erasing\<close>

text \<open>
  C8. In a well-formed state, backspace (8) or DEL (127) on a line that holds bytes stores
  a zero over the last byte, lowers the count by exactly one and sends the erase sequence
  backspace, blank, backspace; on an empty buffer the count stays zero and the line
  buffer, the output and the configuration are unchanged.
\<close>

theorem cli_feed_backspace:
  assumes "cli_inv s" and "c = BS \<or> c = DEL"
  shows "(cl_count s \<noteq> 0 \<longrightarrow>
            cli_feed e c s =
              Inr (s\<lparr>cl_enabled := 1, cl_count := cl_count s - 1,
                     cl_buf := (cl_buf s)[cl_count s - 1 := NUL],
                     trace := trace s @ [Puts [BS, CHR '' '', BS]]\<rparr>))
       \<and> (cl_count s = 0 \<longrightarrow>
            (\<exists>s'. cli_feed e c s = Inr s' \<and> cl_count s' = 0 \<and> cl_buf s' = cl_buf s
                  \<and> trace s' = trace s \<and> cfg s' = cfg s \<and> fmt_buf s' = fmt_buf s))"
proof (cases "cl_count s = 0")
  case True
  show ?thesis
  proof (cases "cl_enabled s = 0")
    case True
    with assms(2) have "cli_feed e c s = Inr s" by (auto simp add: cli_feed_disabled)
    with \<open>cl_count s = 0\<close> show ?thesis by simp
  next
    case False
    with assms(2) \<open>cl_count s = 0\<close> show ?thesis by (simp add: cli_feed_erase)
  qed
next
  case False
  with assms(1) have en: "cl_enabled s \<noteq> 0" and lt: "cl_count s - 1 < length (cl_buf s)"
    by (auto simp add: cli_inv_def)
  with assms(2) False show ?thesis
    by (simp add: cli_feed_erase buf_write_def uartPrint_def serial_puts_def)
qed

theorem cli_feed_backspace_witness:
  "cli_inv (cli_holding example_cfg ''ab'') \<and> (DEL = BS \<or> DEL = DEL)
   \<and> cl_count (cli_holding example_cfg ''ab'') \<noteq> 0
   \<and> cli_feed example_env DEL (cli_holding example_cfg ''ab'')
       = Inr ((cli_holding example_cfg ''ab'')
               \<lparr>cl_enabled := 1, cl_count := 1, cl_buf := ''a'' @ replicate 63 NUL,
                trace := trace (cli_holding example_cfg ''ab'') @ [Puts [BS, CHR '' '', BS]]\<rparr>)
   \<and> cli_inv (cli_ready example_cfg) \<and> cl_count (cli_ready example_cfg) = 0
   \<and> cli_feed example_env DEL (cli_ready example_cfg) = Inr (cli_ready example_cfg)"
proof -
  have h1: "cli_inv (cli_holding example_cfg ''ab'')"
    by (rule cli_holding_inv) simp_all
  have h2: "DEL = BS \<or> DEL = DEL" by simp
  have h3: "cli_inv (cli_ready example_cfg)" by (rule cli_ready_inv)
  have "replicate (Suc 62) NUL = NUL # replicate 62 NUL" by (rule replicate_Suc)
  then have r: "replicate 63 NUL = NUL # replicate 62 NUL" by simp
  have e: "cli_feed example_env DEL (cli_ready example_cfg) = Inr (cli_ready example_cfg)"
    by (simp add: cli_feed_erase cli_ready_def)
  show ?thesis
    using cli_feed_backspace [OF h1 h2, of example_env] cli_feed_backspace [OF h3 h2, of example_env]
      h1 h2 h3 e
    by (simp add: r cli_ready_def)
qed

subsection \<open>The capacity of the line buffer\<close>

lemma cli_feed_all_count_bound:
  assumes "cli_feed_all e cs (cli_init c) = Inr s"
  shows "cl_count s \<le> sizeof_cl_buf \<and> length (cl_buf s) = sizeof_cl_buf"
  using cli_feed_all_inv [OF cli_init_inv assms] by (simp add: cli_inv_def)

lemma cli_feed_full_drop:
  assumes "cl_enabled s \<noteq> 0" and "cl_count s = 64"
    and "32 \<le> (of_char c :: nat)" and "(of_char c :: nat) \<le> 126" and "c \<noteq> CHR ''?''"
  shows "cli_feed e c s = Inr (s\<lparr>cl_enabled := 1\<rparr>)"
  using assms by (simp add: cli_feed_printable)

lemma cli_feed_full_line:
  assumes "length (cl_buf s) = 64" and "cl_count s = 64" and "c = CR \<or> c = LF"
  shows "cli_feed e c s = Inl (WriteOutOfBounds 64)"
proof -
  from assms(3) have "c = LF \<or> c = CR" by auto
  from cli_feed_newline_line [OF this, of s e] assms(1,2) show ?thesis
    by (simp add: cli_feed_enter_def buf_write_def Let_def)
qed

text \<open>
  C2. The count never exceeds 64 and a printable byte that arrives at a full buffer is
  dropped (the two lemmas above), but the count can reach 64, and then the terminator of a
  completed line is stored at \<^verbatim>\<open>cl_buf[64]\<close>, one past the last element: from start-up,
  Enter, 64 letters and Enter end in that store.
\<close>

theorem cli_feed_sentinel_out_of_bounds:
  "cli_feed_all e (CR # replicate 64 (CHR ''a'') @ [CR]) (cli_init c) = Inl (WriteOutOfBounds 64)
   \<and> (\<exists>s. cli_feed_all e (CR # replicate 64 (CHR ''a'')) (cli_init c) = Inr s
          \<and> cl_count s = sizeof_cl_buf \<and> length (cl_buf s) = sizeof_cl_buf)"
proof -
  let ?s = "(cli_ready c)\<lparr>cl_count := 64, cl_buf := replicate 64 (CHR ''a''),
              trace := trace (cli_ready c) @ map Putc (replicate 64 (CHR ''a''))\<rparr>"
  have "cli_feed_all e (replicate 64 (CHR ''a'')) (cli_ready c) =
     Inr ((cli_ready c)\<lparr>cl_count := cl_count (cli_ready c) + length (replicate 64 (CHR ''a'')),
            cl_buf := take (cl_count (cli_ready c)) (cl_buf (cli_ready c)) @ replicate 64 (CHR ''a'')
               @ drop (cl_count (cli_ready c) + length (replicate 64 (CHR ''a''))) (cl_buf (cli_ready c)),
            trace := trace (cli_ready c) @ map Putc (replicate 64 (CHR ''a''))\<rparr>)"
    by (rule cli_feed_all_printables) (simp_all add: cli_ready_def)
  then have f: "cli_feed_all e (replicate 64 (CHR ''a'')) (cli_ready c) = Inr ?s"
    by (simp add: cli_ready_def)
  have "cli_feed e CR ?s = Inl (WriteOutOfBounds 64)"
    by (rule cli_feed_full_line) (simp_all add: cli_ready_def)
  with f show ?thesis
    by (simp add: cli_init_ready cli_feed_all_append)
qed

subsection \<open>Command dispatch\<close>

lemma cli_feed_norm:
  "cl_enabled s \<noteq> 0 \<Longrightarrow> cli_feed e c s = cli_feed e c (s\<lparr>cl_enabled := 1\<rparr>)"
  by (simp add: cli_feed_def)

lemma cli_feed_all_norm:
  "cl_enabled s \<noteq> 0 \<Longrightarrow> cs \<noteq> [] \<Longrightarrow>
   cli_feed_all e cs s = cli_feed_all e cs (s\<lparr>cl_enabled := 1\<rparr>)"
  by (cases cs) (simp_all add: cli_feed_norm [of s])

lemma cli_feed_line_dispatch:
  assumes "cli_inv s" and "cl_count s \<noteq> 0" and "cl_count s < 64" and "c = CR \<or> c = LF"
  shows "cli_feed e c s =
    (case (case bsearch (take (cl_count s) (cl_buf s)) cmd_table CMD_COUNT cliCompare of
             Some i \<Rightarrow>
               call (cmd_func (cmd_table ! i)) e (Some (strlen (cmd_name (cmd_table ! i)) + 1))
                 ((uartPrint CRLF (s\<lparr>cl_enabled := 1\<rparr>))
                    \<lparr>cl_buf := (cl_buf s)[cl_count s := NUL]\<rparr>)
           | None \<Rightarrow>
               Inr (uartPrint (''ERR: Unknown command, try '' @ [CHR 0x27] @ ''help''
                               @ [CHR 0x27] @ CRLF)
                      ((uartPrint CRLF (s\<lparr>cl_enabled := 1\<rparr>))
                         \<lparr>cl_buf := (cl_buf s)[cl_count s := NUL]\<rparr>))) of
       Inl f \<Rightarrow> Inl f
     | Inr s3 \<Rightarrow> cli_feed_eol c (s3\<lparr>cl_buf := replicate 64 NUL\<rparr>))"
proof -
  let ?s = "s\<lparr>cl_enabled := 1\<rparr>"
  from assms(1,3) have lt: "cl_count ?s < length (cl_buf ?s)" by (simp add: cli_inv_def)
  from cli_inv_line_no_NUL [OF assms(1)]
  have nn: "NUL \<notin> set (take (cl_count ?s) (cl_buf ?s))" by simp
  from assms(4) have nl: "c = LF \<or> c = CR" by auto
  show ?thesis
    unfolding cli_feed_newline_line [OF nl assms(2)] cli_feed_enter_dispatch [OF lt nn]
    by (simp split: option.splits sum.splits)
qed

lemma cliHelp_trace:
  "trace (cliHelp cmdline s) = trace s @
     [Puts (''Available commands:'' @ CRLF),
      Puts (''defaults'' @ [TAB] @ ''reset to factory defaults and reboot'' @ CRLF),
      Puts (''exit'' @ [TAB] @ ''leave command mode'' @ CRLF),
      Puts (''help'' @ [TAB] @ CRLF),
      Puts (''info'' @ [TAB] @ ''show runtime information'' @ CRLF),
      Puts (''save'' @ [TAB] @ ''save changes and reboot'' @ CRLF),
      Puts (''set'' @ [TAB] @ ''name=value or blank or * for list'' @ CRLF),
      Puts (''uptime'' @ [TAB] @ ''show the system uptime'' @ CRLF),
      Puts (''version'' @ [TAB] @ ''show version'' @ CRLF)]"
  by (simp add: cliHelp_def cmd_table_def uart_printf_trace cstr_def)

lemma bsearch_h: "bsearch ''h'' cmd_table CMD_COUNT cliCompare = None"
  by (simp add: bsearch_def CMD_COUNT_8 bsearch_range_8 cmd_table_nth cliCompare_def Let_def
        tolower_def)

lemma cmd_name_printable:
  assumes "i < CMD_COUNT"
  shows "\<forall>c \<in> set (cmd_name (cmd_table ! i)).
           32 \<le> (of_char c :: nat) \<and> (of_char c :: nat) \<le> 126 \<and> c \<noteq> CHR ''?'' \<and> c \<noteq> CHR '' ''"
    and "cmd_name (cmd_table ! i) \<noteq> []" and "length (cmd_name (cmd_table ! i)) \<le> 8"
  using assms unfolding CMD_COUNT_8
  by (auto simp add: less_Suc_eq numeral_eq_Suc cmd_table_def)

lemma cli_feed_all_line:
  assumes "cli_inv s" and "cl_enabled s \<noteq> 0" and "cl_count s = 0" and "c = CR \<or> c = LF"
    and "line \<noteq> []" and "length line < 64" and "hd line \<noteq> CHR '' ''"
    and "\<forall>c \<in> set line. 32 \<le> (of_char c :: nat) \<and> (of_char c :: nat) \<le> 126 \<and> c \<noteq> CHR ''?''"
  shows "cli_feed_all e (line @ [c]) s =
    (case (case bsearch line cmd_table CMD_COUNT cliCompare of
             Some i \<Rightarrow>
               call (cmd_func (cmd_table ! i)) e (Some (strlen (cmd_name (cmd_table ! i)) + 1))
                 (s\<lparr>cl_enabled := 1, cl_count := length line,
                    cl_buf := (line @ drop (length line) (cl_buf s))[length line := NUL],
                    trace := trace s @ map Putc line @ [Puts CRLF]\<rparr>)
           | None \<Rightarrow>
               Inr (uartPrint (''ERR: Unknown command, try '' @ [CHR 0x27] @ ''help''
                               @ [CHR 0x27] @ CRLF)
                      (s\<lparr>cl_enabled := 1, cl_count := length line,
                         cl_buf := (line @ drop (length line) (cl_buf s))[length line := NUL],
                         trace := trace s @ map Putc line @ [Puts CRLF]\<rparr>))) of
       Inl f \<Rightarrow> Inl f
     | Inr s3 \<Rightarrow> cli_feed_eol c (s3\<lparr>cl_buf := replicate 64 NUL\<rparr>))"
proof -
  let ?s0 = "s\<lparr>cl_enabled := 1\<rparr>"
  let ?s1 = "s\<lparr>cl_enabled := 1, cl_count := length line,
               cl_buf := line @ drop (length line) (cl_buf s),
               trace := trace s @ map Putc line\<rparr>"
  from assms(1) have len: "length (cl_buf s) = 64" by (simp add: cli_inv_def)
  have "cli_feed_all e line ?s0 =
     Inr (?s0\<lparr>cl_count := cl_count ?s0 + length line,
            cl_buf := take (cl_count ?s0) (cl_buf ?s0) @ line
                        @ drop (cl_count ?s0 + length line) (cl_buf ?s0),
            trace := trace ?s0 @ map Putc line\<rparr>)"
    using assms(3,5,6,7,8) len by (intro cli_feed_all_printables) auto
  with assms(3) have "cli_feed_all e line ?s0 = Inr ?s1" by simp
  with cli_feed_all_norm [OF assms(2,5), of e] have f: "cli_feed_all e line s = Inr ?s1"
    by simp
  from cli_feed_all_inv [OF assms(1) f] have inv1: "cli_inv ?s1" .
  have c1: "cl_count ?s1 \<noteq> 0" "cl_count ?s1 < 64" using assms(5,6) by simp_all
  have tk: "take (cl_count ?s1) (cl_buf ?s1) = line" by simp
  have st: "(uartPrint CRLF (?s1\<lparr>cl_enabled := 1\<rparr>))\<lparr>cl_buf := (cl_buf ?s1)[cl_count ?s1 := NUL]\<rparr>
        = s\<lparr>cl_enabled := 1, cl_count := length line,
             cl_buf := (line @ drop (length line) (cl_buf s))[length line := NUL],
             trace := trace s @ map Putc line @ [Puts CRLF]\<rparr>"
    by (simp add: uartPrint_def serial_puts_def)
  show ?thesis
    unfolding cli_feed_all_append f sum.case cli_feed_all.simps
      cli_feed_line_dispatch [OF inv1 c1 assms(4)] tk st
    by (simp split: sum.splits)
qed

text \<open>
  The table search and the call it leads to. In a well-formed state, with \<open>c\<close> a
  carriage return or newline: the table search finds entry \<open>i\<close> exactly when the line, lower-cased, begins with the
  name of entry \<open>i\<close>, compared over the length of that name; Enter on a held line calls
  the handler of the entry found with the offset one past the end of the name (the name's
  length plus one, whatever byte follows the name), and reports an unknown command when no
  entry is found; the byte \<^verbatim>\<open>h\<close> and then \<open>c\<close> on an empty line report an unknown command;
  the exact name of entry \<open>i\<close> and then \<open>c\<close> on an empty line call the handler of entry
  \<open>i\<close>.
\<close>

lemma cli_dispatch_table_search:
  assumes "cli_inv s" and "c = CR \<or> c = LF"
  shows "(\<forall>line i. bsearch line cmd_table CMD_COUNT cliCompare = Some i
             \<longleftrightarrow> i < CMD_COUNT \<and> prefix_match (cmd_name (cmd_table ! i)) line)
       \<and> (cl_count s \<noteq> 0 \<and> cl_count s < sizeof_cl_buf \<longrightarrow>
            cli_feed e c s =
              (case (case bsearch (take (cl_count s) (cl_buf s)) cmd_table CMD_COUNT cliCompare of
                       Some i \<Rightarrow>
                         call (cmd_func (cmd_table ! i)) e
                           (Some (strlen (cmd_name (cmd_table ! i)) + 1))
                           ((uartPrint CRLF (s\<lparr>cl_enabled := 1\<rparr>))
                              \<lparr>cl_buf := (cl_buf s)[cl_count s := NUL]\<rparr>)
                     | None \<Rightarrow>
                         Inr (uartPrint (''ERR: Unknown command, try '' @ [CHR 0x27] @ ''help''
                                         @ [CHR 0x27] @ CRLF)
                                ((uartPrint CRLF (s\<lparr>cl_enabled := 1\<rparr>))
                                   \<lparr>cl_buf := (cl_buf s)[cl_count s := NUL]\<rparr>))) of
                 Inl f \<Rightarrow> Inl f
               | Inr s3 \<Rightarrow> cli_feed_eol c (s3\<lparr>cl_buf := replicate sizeof_cl_buf NUL\<rparr>)))
       \<and> (cl_enabled s \<noteq> 0 \<and> cl_count s = 0 \<longrightarrow>
            (\<exists>s'. cli_feed_all e [CHR ''h'', c] s = Inr s'
                  \<and> trace s' = trace s @
                      [Putc (CHR ''h''), Puts CRLF,
                       Puts (''ERR: Unknown command, try '' @ [CHR 0x27] @ ''help''
                             @ [CHR 0x27] @ CRLF),
                       Puts (CRLF @ ''# '')]
                  \<and> cfg s' = cfg s \<and> cl_count s' = 0))
       \<and> (\<forall>i < CMD_COUNT. cl_enabled s \<noteq> 0 \<and> cl_count s = 0 \<longrightarrow>
            cli_feed_all e (cmd_name (cmd_table ! i) @ [c]) s =
              (case call (cmd_func (cmd_table ! i)) e
                      (Some (strlen (cmd_name (cmd_table ! i)) + 1))
                      (s\<lparr>cl_enabled := 1, cl_count := strlen (cmd_name (cmd_table ! i)),
                         cl_buf := (cmd_name (cmd_table ! i)
                                     @ drop (strlen (cmd_name (cmd_table ! i))) (cl_buf s))
                                   [strlen (cmd_name (cmd_table ! i)) := NUL],
                         trace := trace s @ map Putc (cmd_name (cmd_table ! i)) @ [Puts CRLF]\<rparr>) of
                 Inl f \<Rightarrow> Inl f
               | Inr s3 \<Rightarrow> cli_feed_eol c (s3\<lparr>cl_buf := replicate sizeof_cl_buf NUL\<rparr>)))"
proof (intro conjI allI impI)
  fix line i
  show "bsearch line cmd_table CMD_COUNT cliCompare = Some i
          \<longleftrightarrow> i < CMD_COUNT \<and> prefix_match (cmd_name (cmd_table ! i)) line"
    by (rule bsearch_prefix_match)
next
  assume "cl_count s \<noteq> 0 \<and> cl_count s < sizeof_cl_buf"
  then have "cl_count s \<noteq> 0" "cl_count s < 64" by simp_all
  from cli_feed_line_dispatch [OF assms(1) this assms(2)]
  show "cli_feed e c s =
              (case (case bsearch (take (cl_count s) (cl_buf s)) cmd_table CMD_COUNT cliCompare of
                       Some i \<Rightarrow>
                         call (cmd_func (cmd_table ! i)) e
                           (Some (strlen (cmd_name (cmd_table ! i)) + 1))
                           ((uartPrint CRLF (s\<lparr>cl_enabled := 1\<rparr>))
                              \<lparr>cl_buf := (cl_buf s)[cl_count s := NUL]\<rparr>)
                     | None \<Rightarrow>
                         Inr (uartPrint (''ERR: Unknown command, try '' @ [CHR 0x27] @ ''help''
                                         @ [CHR 0x27] @ CRLF)
                                ((uartPrint CRLF (s\<lparr>cl_enabled := 1\<rparr>))
                                   \<lparr>cl_buf := (cl_buf s)[cl_count s := NUL]\<rparr>))) of
                 Inl f \<Rightarrow> Inl f
               | Inr s3 \<Rightarrow> cli_feed_eol c (s3\<lparr>cl_buf := replicate sizeof_cl_buf NUL\<rparr>))" .
next
  assume a: "cl_enabled s \<noteq> 0 \<and> cl_count s = 0"
  then have en: "cl_enabled s \<noteq> 0" and z: "cl_count s = 0" by simp_all
  have H: "cli_feed_all e (''h'' @ [c]) s =
     cli_feed_eol c
       ((uartPrint (''ERR: Unknown command, try '' @ [CHR 0x27] @ ''help'' @ [CHR 0x27] @ CRLF)
          (s\<lparr>cl_enabled := 1, cl_count := length ''h'',
             cl_buf := (''h'' @ drop (length ''h'') (cl_buf s))[length ''h'' := NUL],
             trace := trace s @ map Putc ''h'' @ [Puts CRLF]\<rparr>))
        \<lparr>cl_buf := replicate 64 NUL\<rparr>)"
    by (subst cli_feed_all_line [OF assms(1) en z assms(2)]) (simp_all add: bsearch_h)
  have eq: "[CHR ''h'', c] = ''h'' @ [c]" by simp
  show "\<exists>s'. cli_feed_all e [CHR ''h'', c] s = Inr s'
                  \<and> trace s' = trace s @
                      [Putc (CHR ''h''), Puts CRLF,
                       Puts (''ERR: Unknown command, try '' @ [CHR 0x27] @ ''help''
                             @ [CHR 0x27] @ CRLF),
                       Puts (CRLF @ ''# '')]
                  \<and> cfg s' = cfg s \<and> cl_count s' = 0"
    unfolding eq H by (simp add: cli_feed_eol_result)
next
  fix i
  assume i: "i < CMD_COUNT" and a: "cl_enabled s \<noteq> 0 \<and> cl_count s = 0"
  then have en: "cl_enabled s \<noteq> 0" and z: "cl_count s = 0" by simp_all
  let ?n = "cmd_name (cmd_table ! i)"
  from cmd_name_printable [OF i]
  have p: "?n \<noteq> []" "length ?n < 64" "hd ?n \<noteq> CHR '' ''"
    "\<forall>c \<in> set ?n. 32 \<le> (of_char c :: nat) \<and> (of_char c :: nat) \<le> 126 \<and> c \<noteq> CHR ''?''"
    by auto
  have "prefix_match ?n ?n" by (simp add: prefix_match_def)
  with i have b: "bsearch ?n cmd_table CMD_COUNT cliCompare = Some i"
    by (simp only: bsearch_prefix_match)
  show "cli_feed_all e (?n @ [c]) s =
              (case call (cmd_func (cmd_table ! i)) e (Some (strlen ?n + 1))
                      (s\<lparr>cl_enabled := 1, cl_count := strlen ?n,
                         cl_buf := (?n @ drop (strlen ?n) (cl_buf s))[strlen ?n := NUL],
                         trace := trace s @ map Putc ?n @ [Puts CRLF]\<rparr>) of
                 Inl f \<Rightarrow> Inl f
               | Inr s3 \<Rightarrow> cli_feed_eol c (s3\<lparr>cl_buf := replicate sizeof_cl_buf NUL\<rparr>))"
    unfolding cli_feed_all_line [OF assms(1) en z assms(2) p] b by simp
qed

lemma cli_dispatch_table_search_example:
  "cli_inv (cli_ready example_cfg) \<and> (CR = CR \<or> CR = LF)
   \<and> cl_enabled (cli_ready example_cfg) \<noteq> 0 \<and> cl_count (cli_ready example_cfg) = 0
   \<and> 2 < CMD_COUNT \<and> prefix_match (cmd_name (cmd_table ! 2)) ''HELP me''
   \<and> bsearch ''HELP me'' cmd_table CMD_COUNT cliCompare = Some 2
   \<and> (\<exists>s'. cli_feed_all example_env [CHR ''h'', CR] (cli_ready example_cfg) = Inr s'
          \<and> trace s' =
               [Puts (CRLF @ ''# ''), Putc (CHR ''h''), Puts CRLF,
                Puts (''ERR: Unknown command, try '' @ [CHR 0x27] @ ''help'' @ [CHR 0x27] @ CRLF),
                Puts (CRLF @ ''# '')])
   \<and> 1 < CMD_COUNT
   \<and> (\<exists>s'. cli_feed_all example_env (''exit'' @ [CR]) (cli_ready example_cfg) = Inr s'
          \<and> cl_enabled s' = 0
          \<and> trace s' =
               [Puts (CRLF @ ''# ''), Putc (CHR ''e''), Putc (CHR ''x''), Putc (CHR ''i''),
                Putc (CHR ''t''), Puts CRLF,
                Puts (''Exiting cmdline mode.'' @ CRLF
                      @ ''Configuration changes have not been saved.'' @ CRLF
                      @ ''Press Enter to enable cmdline.'' @ CRLF)])
   \<and> cli_inv (cli_holding example_cfg ''exit now'')
   \<and> cl_count (cli_holding example_cfg ''exit now'') \<noteq> 0
   \<and> cl_count (cli_holding example_cfg ''exit now'') < sizeof_cl_buf
   \<and> (\<exists>s'. cli_feed example_env CR (cli_holding example_cfg ''exit now'') = Inr s'
          \<and> cl_enabled s' = 0)"
proof -
  have h1: "cli_inv (cli_ready example_cfg)" by (rule cli_ready_inv)
  have h2: "CR = CR \<or> CR = LF" by simp
  have h3: "cl_enabled (cli_ready example_cfg) \<noteq> 0 \<and> cl_count (cli_ready example_cfg) = 0"
    by (simp add: cli_ready_def)
  have h4: "2 < CMD_COUNT \<and> prefix_match (cmd_name (cmd_table ! 2)) ''HELP me''"
    by (simp add: CMD_COUNT_8 cmd_table_nth prefix_match_def tolower_def char_of_eq_iff)
  have h5: "1 < CMD_COUNT" by (simp add: CMD_COUNT_8)
  have h6: "cli_inv (cli_holding example_cfg ''exit now'')"
    by (rule cli_holding_inv) simp_all
  have h7: "cl_count (cli_holding example_cfg ''exit now'') \<noteq> 0
     \<and> cl_count (cli_holding example_cfg ''exit now'') < sizeof_cl_buf"
    by simp
  have h8: "1 < CMD_COUNT \<and> prefix_match (cmd_name (cmd_table ! 1)) ''exit now''"
    by (simp add: CMD_COUNT_8 cmd_table_nth prefix_match_def tolower_def)
  note A = cli_dispatch_table_search [OF h1 h2, of example_env]
  note B = cli_dispatch_table_search [OF h6 h2, of example_env]
  from A h4 have b1: "bsearch ''HELP me'' cmd_table CMD_COUNT cliCompare = Some 2"
    by blast
  from A h3 have w1: "\<exists>s'. cli_feed_all example_env [CHR ''h'', CR] (cli_ready example_cfg) = Inr s'
          \<and> trace s' = trace (cli_ready example_cfg) @
               [Putc (CHR ''h''), Puts CRLF,
                Puts (''ERR: Unknown command, try '' @ [CHR 0x27] @ ''help'' @ [CHR 0x27] @ CRLF),
                Puts (CRLF @ ''# '')]"
    by blast
  from A h3 h5 have "cli_feed_all example_env (cmd_name (cmd_table ! 1) @ [CR]) (cli_ready example_cfg) =
              (case call (cmd_func (cmd_table ! 1)) example_env
                      (Some (strlen (cmd_name (cmd_table ! 1)) + 1))
                      ((cli_ready example_cfg)\<lparr>cl_enabled := 1, cl_count := strlen (cmd_name (cmd_table ! 1)),
                         cl_buf := (cmd_name (cmd_table ! 1)
                                     @ drop (strlen (cmd_name (cmd_table ! 1))) (cl_buf (cli_ready example_cfg)))
                                   [strlen (cmd_name (cmd_table ! 1)) := NUL],
                         trace := trace (cli_ready example_cfg) @ map Putc (cmd_name (cmd_table ! 1)) @ [Puts CRLF]\<rparr>) of
                 Inl f \<Rightarrow> Inl f
               | Inr s3 \<Rightarrow> cli_feed_eol CR (s3\<lparr>cl_buf := replicate sizeof_cl_buf NUL\<rparr>))"
    by blast
  then have w2: "\<exists>s'. cli_feed_all example_env (''exit'' @ [CR]) (cli_ready example_cfg) = Inr s'
          \<and> cl_enabled s' = 0
          \<and> trace s' =
               [Puts (CRLF @ ''# ''), Putc (CHR ''e''), Putc (CHR ''x''), Putc (CHR ''i''),
                Putc (CHR ''t''), Puts CRLF,
                Puts (''Exiting cmdline mode.'' @ CRLF
                      @ ''Configuration changes have not been saved.'' @ CRLF
                      @ ''Press Enter to enable cmdline.'' @ CRLF)]"
    by (simp add: cmd_table_nth cli_feed_eol_result cliExit_def cli_ready_def)
  from B h8 have "bsearch ''exit now'' cmd_table CMD_COUNT cliCompare = Some 1"
    by blast
  with B h7 have w3: "\<exists>s'. cli_feed example_env CR (cli_holding example_cfg ''exit now'') = Inr s'
          \<and> cl_enabled s' = 0"
    by (simp add: cmd_table_nth cli_feed_eol_result)
  from h1 h2 h3 h4 h5 h6 h7 b1 w1 w2 w3 show ?thesis
    by (simp add: cli_ready_def)
qed

subsection \<open>A leading blank\<close>

lemma bsearch_help: "bsearch ''help'' cmd_table CMD_COUNT cliCompare = Some 2"
proof -
  have "2 < CMD_COUNT \<and> prefix_match (cmd_name (cmd_table ! 2)) ''help''"
    by (simp add: CMD_COUNT_8 cmd_table_nth prefix_match_def)
  then show ?thesis by (simp only: bsearch_prefix_match)
qed

lemma cliHelp_frame [simp]:
  "cl_enabled (cliHelp cmdline s) = cl_enabled s"
  "cl_count (cliHelp cmdline s) = cl_count s"
  "cl_buf (cliHelp cmdline s) = cl_buf s"
  "cfg (cliHelp cmdline s) = cfg s"
  by (simp_all add: cliHelp_def)

text \<open>
  C9. In a well-formed state with the session enabled and the buffer empty, a blank is
  dropped: the state is unchanged, nothing is stored and nothing is sent. After blank,
  \<^verbatim>\<open>h\<close>, \<^verbatim>\<open>e\<close>, \<^verbatim>\<open>l\<close>, \<^verbatim>\<open>p\<close> the buffer holds the four bytes \<^verbatim>\<open>help\<close> with no
  blank before them, and a terminator then runs the help command: the trace is the echo of
  the four letters, the newline, the help listing and the prompt.
\<close>

theorem cli_feed_leading_space:
  assumes "cli_inv s" and "cl_enabled s \<noteq> 0" and "cl_count s = 0" and "c = CR \<or> c = LF"
  shows "cli_feed e (CHR '' '') s = Inr (s\<lparr>cl_enabled := 1\<rparr>)
       \<and> (\<exists>s1. cli_feed_all e '' help'' s = Inr s1 \<and> cl_count s1 = 4
               \<and> take 4 (cl_buf s1) = ''help'' \<and> trace s1 = trace s @ map Putc ''help'')
       \<and> (\<exists>s'. cli_feed_all e ('' help'' @ [c]) s = Inr s' \<and> cl_count s' = 0 \<and> cfg s' = cfg s
               \<and> trace s' = trace s @ map Putc ''help'' @
                   [Puts CRLF,
                    Puts (''Available commands:'' @ CRLF),
                    Puts (''defaults'' @ [TAB] @ ''reset to factory defaults and reboot'' @ CRLF),
                    Puts (''exit'' @ [TAB] @ ''leave command mode'' @ CRLF),
                    Puts (''help'' @ [TAB] @ CRLF),
                    Puts (''info'' @ [TAB] @ ''show runtime information'' @ CRLF),
                    Puts (''save'' @ [TAB] @ ''save changes and reboot'' @ CRLF),
                    Puts (''set'' @ [TAB] @ ''name=value or blank or * for list'' @ CRLF),
                    Puts (''uptime'' @ [TAB] @ ''show the system uptime'' @ CRLF),
                    Puts (''version'' @ [TAB] @ ''show version'' @ CRLF),
                    Puts (CRLF @ ''# '')])"
proof -
  let ?s0 = "s\<lparr>cl_enabled := 1\<rparr>"
  have sp: "cli_feed e (CHR '' '') s = Inr ?s0"
    using assms(2,3) by (simp add: cli_feed_printable)
  have inv0: "cli_inv ?s0" using assms(1) by (rule cli_inv_enable)
  have en0: "cl_enabled ?s0 \<noteq> 0" "cl_enabled ?s0 = 1" and z0: "cl_count ?s0 = 0"
    using assms(3) by simp_all
  from assms(1) have len: "length (cl_buf s) = 64" by (simp add: cli_inv_def)
  have "cli_feed_all e ''help'' ?s0 =
     Inr (?s0\<lparr>cl_count := cl_count ?s0 + length ''help'',
            cl_buf := take (cl_count ?s0) (cl_buf ?s0) @ ''help''
                        @ drop (cl_count ?s0 + length ''help'') (cl_buf ?s0),
            trace := trace ?s0 @ map Putc ''help''\<rparr>)"
    using len assms(3) by (intro cli_feed_all_printables) simp_all
  then have held: "cli_feed_all e ''help'' ?s0 =
     Inr (?s0\<lparr>cl_count := length ''help'',
            cl_buf := ''help'' @ drop (length ''help'') (cl_buf s),
            trace := trace s @ map Putc ''help''\<rparr>)"
    using assms(3) by simp
  have p1: "\<exists>s1. cli_feed_all e '' help'' s = Inr s1 \<and> cl_count s1 = 4
               \<and> take 4 (cl_buf s1) = ''help'' \<and> trace s1 = trace s @ map Putc ''help''"
  proof -
    have "cli_feed_all e '' help'' s = cli_feed_all e ''help'' ?s0"
      using sp by simp
    with held show ?thesis by simp
  qed
  have line: "cli_feed_all e (''help'' @ [c]) ?s0 =
     cli_feed_eol c
       ((cliHelp (Some 5)
          (?s0\<lparr>cl_enabled := 1, cl_count := length ''help'',
             cl_buf := (''help'' @ drop (length ''help'') (cl_buf ?s0))[length ''help'' := NUL],
             trace := trace ?s0 @ map Putc ''help'' @ [Puts CRLF]\<rparr>))
        \<lparr>cl_buf := replicate 64 NUL\<rparr>)"
    by (subst cli_feed_all_line [OF inv0 en0(1) z0 assms(4)])
       (simp_all add: bsearch_help cmd_table_nth cliHelp_def)
  have "cli_feed_all e ('' help'' @ [c]) s = cli_feed_all e (''help'' @ [c]) ?s0"
    using sp by simp
  then have p2: "\<exists>s'. cli_feed_all e ('' help'' @ [c]) s = Inr s' \<and> cl_count s' = 0
               \<and> cfg s' = cfg s
               \<and> trace s' = trace s @ map Putc ''help'' @
                   [Puts CRLF,
                    Puts (''Available commands:'' @ CRLF),
                    Puts (''defaults'' @ [TAB] @ ''reset to factory defaults and reboot'' @ CRLF),
                    Puts (''exit'' @ [TAB] @ ''leave command mode'' @ CRLF),
                    Puts (''help'' @ [TAB] @ CRLF),
                    Puts (''info'' @ [TAB] @ ''show runtime information'' @ CRLF),
                    Puts (''save'' @ [TAB] @ ''save changes and reboot'' @ CRLF),
                    Puts (''set'' @ [TAB] @ ''name=value or blank or * for list'' @ CRLF),
                    Puts (''uptime'' @ [TAB] @ ''show the system uptime'' @ CRLF),
                    Puts (''version'' @ [TAB] @ ''show version'' @ CRLF),
                    Puts (CRLF @ ''# '')]"
    unfolding line by (simp add: cli_feed_eol_result cliHelp_trace)
  from sp p1 p2 show ?thesis by blast
qed

theorem cli_feed_leading_space_witness:
  "cli_inv (cli_ready example_cfg) \<and> cl_enabled (cli_ready example_cfg) \<noteq> 0
   \<and> cl_count (cli_ready example_cfg) = 0 \<and> (CR = CR \<or> CR = LF)
   \<and> cli_feed example_env (CHR '' '') (cli_ready example_cfg) = Inr (cli_ready example_cfg)
   \<and> (\<exists>s1. cli_feed_all example_env '' help'' (cli_ready example_cfg) = Inr s1
          \<and> cl_count s1 = 4 \<and> take 4 (cl_buf s1) = ''help'')
   \<and> (\<exists>s'. cli_feed_all example_env ('' help'' @ [CR]) (cli_ready example_cfg) = Inr s'
          \<and> sent (trace s') =
               CRLF @ ''# help'' @ CRLF @ ''Available commands:'' @ CRLF
               @ ''defaults'' @ [TAB] @ ''reset to factory defaults and reboot'' @ CRLF
               @ ''exit'' @ [TAB] @ ''leave command mode'' @ CRLF
               @ ''help'' @ [TAB] @ CRLF
               @ ''info'' @ [TAB] @ ''show runtime information'' @ CRLF
               @ ''save'' @ [TAB] @ ''save changes and reboot'' @ CRLF
               @ ''set'' @ [TAB] @ ''name=value or blank or * for list'' @ CRLF
               @ ''uptime'' @ [TAB] @ ''show the system uptime'' @ CRLF
               @ ''version'' @ [TAB] @ ''show version'' @ CRLF
               @ CRLF @ ''# '')"
proof -
  have h1: "cli_inv (cli_ready example_cfg)" by (rule cli_ready_inv)
  have h2: "cl_enabled (cli_ready example_cfg) \<noteq> 0" by (simp add: cli_ready_def)
  have h3: "cl_count (cli_ready example_cfg) = 0" by (simp add: cli_ready_def)
  have h4: "CR = CR \<or> CR = LF" by simp
  have e: "(cli_ready example_cfg)\<lparr>cl_enabled := 1\<rparr> = cli_ready example_cfg"
    by (simp add: cli_ready_def)
  have t: "trace (cli_ready example_cfg) = [Puts (CRLF @ ''# '')]"
    by (simp add: cli_ready_def)
  from cli_feed_leading_space [OF h1 h2 h3 h4, of example_env] h1 h2 h3 h4
  show ?thesis unfolding e t by auto
qed

subsection \<open>Printing variables\<close>

lemma digit_char_not_NUL: "d < 10 \<Longrightarrow> digit_char d \<noteq> NUL" "d < 10 \<Longrightarrow> NUL \<noteq> digit_char d"
  by (simp_all add: digit_char_def char_of_eq_iff eq_char_of_iff)

lemma dec_no_NUL: "NUL \<notin> set (dec n)"
proof (induction n rule: dec.induct)
  case (1 n)
  show ?case
  proof (cases "n < 10")
    case True
    then show ?thesis by (simp add: dec.simps [of n] digit_char_not_NUL)
  next
    case False
    with 1 show ?thesis by (simp add: dec.simps [of n] digit_char_not_NUL)
  qed
qed

lemma length_dec_le: "n < 10 ^ Suc k \<Longrightarrow> length (dec n) \<le> Suc k"
proof (induction k arbitrary: n)
  case 0
  then show ?case by (simp add: dec.simps [of n])
next
  case (Suc k)
  show ?case
  proof (cases "n < 10")
    case True
    then show ?thesis by (simp add: dec.simps [of n])
  next
    case False
    from Suc.prems have "n div 10 < 10 ^ Suc k" by simp
    from Suc.IH [OF this] False show ?thesis by (simp add: dec.simps [of n])
  qed
qed

lemma length_dec_u32: "length (dec (unat (w :: 32 word))) \<le> 10"
proof -
  have "unat w < 2 ^ LENGTH(32)" by (rule unsigned_less)
  then have "unat w < 10 ^ Suc 9" by simp
  from length_dec_le [OF this] show ?thesis by simp
qed

lemma length_dec_u8: "length (dec (unat (w :: 8 word))) \<le> 3"
proof -
  have "unat w < 2 ^ LENGTH(8)" by (rule unsigned_less)
  then have "unat w < 10 ^ Suc 2" by simp
  from length_dec_le [OF this] show ?thesis by simp
qed

lemma sdec_uint: "sdec (uint (w :: 8 word)) = dec (unat w)"
  by (simp add: sdec_def)

lemma dotted_quad_no_NUL: "NUL \<notin> set (dotted_quad b)"
  by (cases b) (simp add: dotted_quad_def dec_no_NUL)

lemma length_dotted_quad: "length (dotted_quad b) \<le> 15"
proof (cases b)
  case (fields a0 a1 a2 a3)
  from length_dec_u8 [of a0] length_dec_u8 [of a1] length_dec_u8 [of a2] length_dec_u8 [of a3]
  show ?thesis by (simp add: fields dotted_quad_def)
qed

lemma cstr_take_short: "length xs \<le> 63 \<Longrightarrow> NUL \<notin> set xs \<Longrightarrow> cstr (take 63 xs) = xs"
  by (simp add: cstr_no_NUL)

lemma var_text_no_NUL: "NUL \<notin> set (var_text var c)"
  by (cases "var_type var") (simp_all add: var_text_def dec_no_NUL dotted_quad_no_NUL)

lemma length_var_text: "length (var_text var c) \<le> 15"
proof (cases "var_type var")
  case VAR_UINT32
  with length_dec_u32 [of "u32_of_bytes (load c (var_ptr var))"] show ?thesis
    by (simp add: var_text_def)
next
  case VAR_BOOL
  then show ?thesis by (simp add: var_text_def)
next
  case VAR_IP4
  with length_dotted_quad [of "load c (var_ptr var)"] show ?thesis
    by (simp add: var_text_def)
qed

lemma cliPrintVar_format:
  "cliPrintVar var full s =
     uart_printf ''%s'' [S (var_text var (cfg s))] s"
proof -
  have b: "dec 0 = ''0''" "dec (Suc 0) = ''1''"
    by (simp_all add: dec.simps digit_char_def char_of_eq_iff)
  obtain a0 a1 a2 a3 where l: "load (cfg s) (var_ptr var) = (a0, a1, a2, a3)"
    by (cases "load (cfg s) (var_ptr var)") auto
  show ?thesis
    by (cases "var_type var")
       (simp_all add: cliPrintVar_def var_text_def l uart_printf_def vsnprintf_def Let_def
          sdec_uint dotted_quad_def b)
qed

lemma cliPrintVar_trace:
  "trace (cliPrintVar var full s) = trace s @ [Puts (var_text var (cfg s))]"
proof -
  from length_var_text [of var "cfg s"] have "length (var_text var (cfg s)) \<le> 63" by simp
  then show ?thesis
    by (simp add: cliPrintVar_format uart_printf_trace cstr_no_NUL var_text_no_NUL)
qed

lemma sent_append [simp]: "sent (xs @ ys) = sent xs @ sent ys"
  by (induction xs rule: sent.induct) simp_all

lemma value_table_names:
  assumes "v \<in> set value_table"
  shows "NUL \<notin> set (var_name v)" and "length (var_name v) \<le> 13"
  using assms by (auto simp add: value_table_def)

lemma uart_printf_name_trace:
  assumes "NUL \<notin> set name" and "length name \<le> 13"
  shows "trace (uart_printf ''%s = '' [S name] s) = trace s @ [Puts (name @ '' = '')]"
    and "trace (uart_printf ''%s set to '' [S name] s) = trace s @ [Puts (name @ '' set to '')]"
  using assms by (simp_all add: uart_printf_trace cstr_no_NUL)

lemma cliSet_list_trace:
  assumes "\<forall>v \<in> set vals. NUL \<notin> set (var_name v) \<and> length (var_name v) \<le> 13"
  shows "trace (cliSet_list vals len s) =
     trace s @ concat (map (\<lambda>v. [Puts (var_name v @ '' = ''), Puts (var_text v (cfg s)),
                                   Puts CRLF]) vals)"
  using assms
proof (induction vals arbitrary: s)
  case Nil
  then show ?case by simp
next
  case (Cons v vals)
  then show ?case
    by (simp add: cliPrintVar_trace uart_printf_name_trace)
qed

text \<open>
  C7. When the argument tail of \<^verbatim>\<open>set\<close> is empty or is the single byte \<^verbatim>\<open>*\<close>, the
  handler sends the heading and then, for the four variables in the order of the value
  table, the name, \<^verbatim>\<open> = \<close>, the value and a line end; the configuration is unchanged.
\<close>

theorem cliSet_lists_all:
  assumes "cstr_at (cl_buf s) i = Some tail" and "tail = [] \<or> tail = ''*''"
  shows "\<exists>s'. cliSet (Some i) s = Inr s' \<and> cfg s' = cfg s \<and> cl_buf s' = cl_buf s
           \<and> cl_count s' = cl_count s \<and> cl_enabled s' = cl_enabled s
           \<and> trace s' = trace s @
                [Puts (''Current settings:'' @ CRLF),
                 Puts ''gps_baud_rate = '',
                 Puts (dec (unat (u32_of_bytes (gps_baud_rate (cfg s))))), Puts CRLF,
                 Puts ''ip_addr = '', Puts (dotted_quad (ip_addr (cfg s))), Puts CRLF,
                 Puts ''ip_gateway = '', Puts (dotted_quad (ip_gateway (cfg s))), Puts CRLF,
                 Puts ''ip_netmask = '', Puts (dotted_quad (ip_netmask (cfg s))), Puts CRLF]
           \<and> sent (trace s') = sent (trace s) @
                ''Current settings:'' @ CRLF
                @ ''gps_baud_rate = '' @ dec (unat (u32_of_bytes (gps_baud_rate (cfg s)))) @ CRLF
                @ ''ip_addr = '' @ dotted_quad (ip_addr (cfg s)) @ CRLF
                @ ''ip_gateway = '' @ dotted_quad (ip_gateway (cfg s)) @ CRLF
                @ ''ip_netmask = '' @ dotted_quad (ip_netmask (cfg s)) @ CRLF"
proof -
  define s' where "s' = cliSet_list value_table (length tail) (uartPrint (''Current settings:'' @ CRLF) s)"
  from assms have r: "cliSet (Some i) s = Inr s'"
    by (auto simp add: cliSet_def Let_def s'_def)
  have n: "\<forall>v \<in> set value_table. NUL \<notin> set (var_name v) \<and> length (var_name v) \<le> 13"
    using value_table_names by blast
  have t: "trace s' = trace s @
                [Puts (''Current settings:'' @ CRLF),
                 Puts ''gps_baud_rate = '',
                 Puts (dec (unat (u32_of_bytes (gps_baud_rate (cfg s))))), Puts CRLF,
                 Puts ''ip_addr = '', Puts (dotted_quad (ip_addr (cfg s))), Puts CRLF,
                 Puts ''ip_gateway = '', Puts (dotted_quad (ip_gateway (cfg s))), Puts CRLF,
                 Puts ''ip_netmask = '', Puts (dotted_quad (ip_netmask (cfg s))), Puts CRLF]"
    unfolding s'_def cliSet_list_trace [OF n]
    by (simp add: value_table_def var_text_def)
  have f: "cfg s' = cfg s" "cl_buf s' = cl_buf s" "cl_count s' = cl_count s"
    "cl_enabled s' = cl_enabled s"
    by (simp_all add: s'_def)
  have "sent (trace s') = sent (trace s) @
                ''Current settings:'' @ CRLF
                @ ''gps_baud_rate = '' @ dec (unat (u32_of_bytes (gps_baud_rate (cfg s)))) @ CRLF
                @ ''ip_addr = '' @ dotted_quad (ip_addr (cfg s)) @ CRLF
                @ ''ip_gateway = '' @ dotted_quad (ip_gateway (cfg s)) @ CRLF
                @ ''ip_netmask = '' @ dotted_quad (ip_netmask (cfg s)) @ CRLF"
    unfolding t by simp
  with r t f show ?thesis by blast
qed

lemma u32_of_bytes_9600: "u32_of_bytes (0x80, 0x25, 0, 0) = 9600"
  by (simp add: u32_of_bytes_def)

lemma dec_examples: "dec 9600 = ''9600''" "dec 192 = ''192''" "dec 168 = ''168''" "dec 0 = ''0''" "dec 2 = ''2''" "dec 255 = ''255''"
  by (simp_all add: dec.simps digit_char_def char_of_eq_iff)

lemma example_cfg_texts:
  "dec (unat (u32_of_bytes (gps_baud_rate example_cfg))) = ''9600''"
  "dotted_quad (ip_addr example_cfg) = ''192.168.0.2''"
  "dotted_quad (ip_gateway example_cfg) = ''0.0.0.0''"
  "dotted_quad (ip_netmask example_cfg) = ''255.255.255.0''"
  by (simp_all add: u32_of_bytes_9600 dec_examples dotted_quad_def example_cfg_def)

lemma cstr_at_ready: "cstr_at (cl_buf (cli_ready example_cfg)) 4 = Some []"
  by (simp add: cstr_at_def cli_ready_def)

lemma cstr_at_set_star: "cstr_at (cl_buf (cli_holding example_cfg ''set *'')) 4 = Some ''*''"
  by (simp add: cstr_at_def)

theorem cliSet_lists_all_witness:
  "cstr_at (cl_buf (cli_ready example_cfg)) 4 = Some [] \<and> ([] = [] \<or> [] = ''*'')
   \<and> (\<exists>s'. cliSet (Some 4) (cli_ready example_cfg) = Inr s' \<and> cfg s' = example_cfg
          \<and> sent (trace s') =
               CRLF @ ''# '' @ ''Current settings:'' @ CRLF
               @ ''gps_baud_rate = 9600'' @ CRLF
               @ ''ip_addr = 192.168.0.2'' @ CRLF
               @ ''ip_gateway = 0.0.0.0'' @ CRLF
               @ ''ip_netmask = 255.255.255.0'' @ CRLF)
   \<and> cstr_at (cl_buf (cli_holding example_cfg ''set *'')) 4 = Some ''*''
   \<and> (''*'' = [] \<or> ''*'' = ''*'')
   \<and> (\<exists>s'. cliSet (Some 4) (cli_holding example_cfg ''set *'') = Inr s' \<and> cfg s' = example_cfg
          \<and> sent (trace s') =
               CRLF @ ''# set *'' @ ''Current settings:'' @ CRLF
               @ ''gps_baud_rate = 9600'' @ CRLF
               @ ''ip_addr = 192.168.0.2'' @ CRLF
               @ ''ip_gateway = 0.0.0.0'' @ CRLF
               @ ''ip_netmask = 255.255.255.0'' @ CRLF)"
proof -
  have h2: "[] = [] \<or> [] = ''*''" by simp
  have h4: "''*'' = [] \<or> ''*'' = ''*''" by simp
  have c: "cfg (cli_ready example_cfg) = example_cfg"
    "trace (cli_ready example_cfg) = [Puts (CRLF @ ''# '')]"
    by (simp_all add: cli_ready_def)
  from cliSet_lists_all [OF cstr_at_ready h2]
  have w1: "\<exists>s'. cliSet (Some 4) (cli_ready example_cfg) = Inr s' \<and> cfg s' = example_cfg
          \<and> sent (trace s') =
               CRLF @ ''# '' @ ''Current settings:'' @ CRLF
               @ ''gps_baud_rate = 9600'' @ CRLF
               @ ''ip_addr = 192.168.0.2'' @ CRLF
               @ ''ip_gateway = 0.0.0.0'' @ CRLF
               @ ''ip_netmask = 255.255.255.0'' @ CRLF"
    unfolding c example_cfg_texts by fastforce
  from cliSet_lists_all [OF cstr_at_set_star h4]
  have w2: "\<exists>s'. cliSet (Some 4) (cli_holding example_cfg ''set *'') = Inr s' \<and> cfg s' = example_cfg
          \<and> sent (trace s') =
               CRLF @ ''# set *'' @ ''Current settings:'' @ CRLF
               @ ''gps_baud_rate = 9600'' @ CRLF
               @ ''ip_addr = 192.168.0.2'' @ CRLF
               @ ''ip_gateway = 0.0.0.0'' @ CRLF
               @ ''ip_netmask = 255.255.255.0'' @ CRLF"
    unfolding cli_holding_simps example_cfg_texts by fastforce
  from cstr_at_ready h2 cstr_at_set_star h4 w1 w2 show ?thesis by blast
qed

subsection \<open>Assigning a variable\<close>

lemma load_store: "load (store p v c) q = (if q = p then v else load c q)"
  by (cases p; cases q) simp_all

lemma version_store [simp]: "version (store p v c) = version c"
  by (cases p) simp_all

lemma cliSetVar_cfg_frame:
  "p \<noteq> var_ptr v \<Longrightarrow> load (cfg (cliSetVar v str s)) p = load (cfg s) p"
  "version (cfg (cliSetVar v str s)) = version (cfg s)"
  by (cases "var_type v"; simp add: cliSetVar_def load_store Let_def split: prod.splits)+

lemma cliSet_assign_find:
  "cliSet_assign vals cmdline eqptr s =
     (case find (\<lambda>v. strncasecmp cmdline (var_name v) (strlen (var_name v)) = 0) vals of
        None \<Rightarrow> uartPrint (''ERR: Unknown variable name'' @ CRLF) s
      | Some v \<Rightarrow>
          cliPrintVar v 0 (uart_printf ''%s set to '' [S (var_name v)] (cliSetVar v eqptr s)))"
  by (induction vals) simp_all

lemma find_value_table_prefix:
  "find (\<lambda>v. strncasecmp tail (var_name v) (strlen (var_name v)) = 0) value_table
     = find (\<lambda>v. prefix_match (var_name v) tail) value_table"
proof (rule find_cong [OF refl])
  fix v
  assume "v \<in> set value_table"
  from strncasecmp_eq_0_iff [OF value_table_names(1) [OF this]]
  show "(strncasecmp tail (var_name v) (strlen (var_name v)) = 0) = prefix_match (var_name v) tail"
    by (simp add: prefix_match_def)
qed

text \<open>
  What an assignment leaves alone. When the argument tail of \<^verbatim>\<open>set\<close> contains \<^verbatim>\<open>=\<close>: if no entry of the value table
  has a name the tail begins with (lower-cased, over the length of the name), the handler
  sends the unknown-variable notice and changes nothing else; otherwise, for the first such
  entry in table order, the handler sets that variable from the text after the \<^verbatim>\<open>=\<close> and
  the blanks that follow it, sends the name, \<^verbatim>\<open> set to \<close> and the value now stored, and
  returns: the storage of every other variable, the version field and the line buffer are
  unchanged.
\<close>

lemma cliSet_first_match_frame:
  assumes "cstr_at (cl_buf s) i = Some tail" and "CHR ''='' \<in> set tail"
  shows "(find (\<lambda>v. prefix_match (var_name v) tail) value_table = None \<longrightarrow>
            cliSet (Some i) s = Inr (uartPrint (''ERR: Unknown variable name'' @ CRLF) s))
       \<and> (\<forall>v. find (\<lambda>v. prefix_match (var_name v) tail) value_table = Some v \<longrightarrow>
            (\<exists>s'. cliSet (Some i) s = Inr s'
               \<and> cfg s' = cfg (cliSetVar v (dropWhile (\<lambda>c. c = CHR '' '')
                                              (tl (dropWhile (\<lambda>c. c \<noteq> CHR ''='') tail))) s)
               \<and> (\<forall>p. p \<noteq> var_ptr v \<longrightarrow> load (cfg s') p = load (cfg s) p)
               \<and> version (cfg s') = version (cfg s)
               \<and> trace s' = trace s @ [Puts (var_name v @ '' set to ''), Puts (var_text v (cfg s'))]
               \<and> cl_buf s' = cl_buf s \<and> cl_count s' = cl_count s
               \<and> cl_enabled s' = cl_enabled s))"
proof -
  let ?eq = "dropWhile (\<lambda>c. c = CHR '' '') (tl (dropWhile (\<lambda>c. c \<noteq> CHR ''='') tail))"
  from assms(2) have ne: "tail \<noteq> []" "\<not> (length tail = 1 \<and> tail ! 0 = CHR ''*'')"
    by (auto simp add: length_Suc_conv)
  with assms have r: "cliSet (Some i) s = Inr (cliSet_assign value_table tail ?eq s)"
    by (auto simp add: cliSet_def Let_def)
  show ?thesis
  proof (intro conjI allI impI)
    assume "find (\<lambda>v. prefix_match (var_name v) tail) value_table = None"
    then show "cliSet (Some i) s = Inr (uartPrint (''ERR: Unknown variable name'' @ CRLF) s)"
      unfolding r cliSet_assign_find find_value_table_prefix by simp
  next
    fix v
    assume f: "find (\<lambda>v. prefix_match (var_name v) tail) value_table = Some v"
    define s' where "s' = cliPrintVar v 0 (uart_printf ''%s set to '' [S (var_name v)] (cliSetVar v ?eq s))"
    from f have r': "cliSet (Some i) s = Inr s'"
      unfolding r cliSet_assign_find find_value_table_prefix s'_def by simp
    from f have "v \<in> set value_table"
      by (auto simp add: find_Some_iff)
    note nm = value_table_names [OF this]
    have c: "cfg s' = cfg (cliSetVar v ?eq s)" by (simp add: s'_def)
    have t: "trace s' = trace s @ [Puts (var_name v @ '' set to ''), Puts (var_text v (cfg s'))]"
      unfolding c by (simp add: s'_def cliPrintVar_trace uart_printf_name_trace(2) [OF nm])
    have fr: "cl_buf s' = cl_buf s" "cl_count s' = cl_count s" "cl_enabled s' = cl_enabled s"
      by (simp_all add: s'_def)
    from r' c t fr
    show "\<exists>s'. cliSet (Some i) s = Inr s'
               \<and> cfg s' = cfg (cliSetVar v ?eq s)
               \<and> (\<forall>p. p \<noteq> var_ptr v \<longrightarrow> load (cfg s') p = load (cfg s) p)
               \<and> version (cfg s') = version (cfg s)
               \<and> trace s' = trace s @ [Puts (var_name v @ '' set to ''), Puts (var_text v (cfg s'))]
               \<and> cl_buf s' = cl_buf s \<and> cl_count s' = cl_count s
               \<and> cl_enabled s' = cl_enabled s"
      by (intro exI [of _ s']) (simp add: cliSetVar_cfg_frame)
  qed
qed

lemma atoi_4800: "atoi_decimal ''4800'' = 4800"
  by (simp add: atoi_decimal_def)

lemma bytes_4800: "bytes_of_u32 4800 = (192, 18, 0, 0)"
  by (simp add: bytes_of_u32_def)

lemma u32_4800: "u32_of_bytes (192, 18, 0, 0) = 4800"
  by (simp add: u32_of_bytes_def)

lemma dec_4800: "dec 4800 = ''4800''"
  by (simp add: dec.simps digit_char_def char_of_eq_iff)

lemma find_gps:
  "find (\<lambda>v. prefix_match (var_name v) ''gps_baud_rate=4800'') value_table
     = Some \<lparr>var_name = ''gps_baud_rate'', var_type = VAR_UINT32, var_ptr = Ptr_gps_baud_rate\<rparr>"
  by (simp add: value_table_def prefix_match_def tolower_def)

lemma find_foo:
  "find (\<lambda>v. prefix_match (var_name v) ''foo=1'') value_table = None"
  by (simp add: value_table_def prefix_match_def tolower_def)

lemma cstr_at_examples:
  "cstr_at (cl_buf (cli_holding example_cfg ''set gps_baud_rate=4800'')) 4 = Some ''gps_baud_rate=4800''"
  "cstr_at (cl_buf (cli_holding example_cfg ''set foo=1'')) 4 = Some ''foo=1''"
  by (simp_all add: cstr_at_def)

lemma cliSet_first_match_frame_example:
  "cstr_at (cl_buf (cli_holding example_cfg ''set gps_baud_rate=4800'')) 4
     = Some ''gps_baud_rate=4800''
   \<and> CHR ''='' \<in> set ''gps_baud_rate=4800''
   \<and> find (\<lambda>v. prefix_match (var_name v) ''gps_baud_rate=4800'') value_table
       = Some \<lparr>var_name = ''gps_baud_rate'', var_type = VAR_UINT32, var_ptr = Ptr_gps_baud_rate\<rparr>
   \<and> Ptr_ip_addr
       \<noteq> var_ptr \<lparr>var_name = ''gps_baud_rate'', var_type = VAR_UINT32, var_ptr = Ptr_gps_baud_rate\<rparr>
   \<and> (\<exists>s'. cliSet (Some 4) (cli_holding example_cfg ''set gps_baud_rate=4800'') = Inr s'
          \<and> gps_baud_rate (cfg s') = (192, 18, 0, 0)
          \<and> load (cfg s') Ptr_ip_addr = (192, 168, 0, 2)
          \<and> trace s' = trace (cli_holding example_cfg ''set gps_baud_rate=4800'')
                         @ [Puts ''gps_baud_rate set to '', Puts ''4800''])
   \<and> cstr_at (cl_buf (cli_holding example_cfg ''set foo=1'')) 4 = Some ''foo=1''
   \<and> CHR ''='' \<in> set ''foo=1''
   \<and> find (\<lambda>v. prefix_match (var_name v) ''foo=1'') value_table = None
   \<and> cliSet (Some 4) (cli_holding example_cfg ''set foo=1'')
       = Inr (uartPrint (''ERR: Unknown variable name'' @ CRLF)
                (cli_holding example_cfg ''set foo=1''))"
proof -
  define v where "v = \<lparr>var_name = ''gps_baud_rate'', var_type = VAR_UINT32,
                         var_ptr = Ptr_gps_baud_rate\<rparr>"
  define A where "A = cli_holding example_cfg ''set gps_baud_rate=4800''"
  have e1: "CHR ''='' \<in> set ''gps_baud_rate=4800''" by simp
  have e2: "CHR ''='' \<in> set ''foo=1''" by simp
  have ne: "Ptr_ip_addr \<noteq> var_ptr v" by (simp add: v_def)
  have fg: "find (\<lambda>v. prefix_match (var_name v) ''gps_baud_rate=4800'') value_table = Some v"
    unfolding v_def by (rule find_gps)
  have val: "dropWhile (\<lambda>c. c = CHR '' '') (tl (dropWhile (\<lambda>c. c \<noteq> CHR ''='') ''gps_baud_rate=4800''))
               = ''4800''"
    by simp
  have cA: "cfg A = example_cfg" by (simp add: A_def)
  have c1: "cfg (cliSetVar v ''4800'' A) = example_cfg\<lparr>gps_baud_rate := (192, 18, 0, 0)\<rparr>"
    by (simp add: cliSetVar_def v_def atoi_4800 bytes_4800 cA)
  have vt: "var_text v (example_cfg\<lparr>gps_baud_rate := (192, 18, 0, 0)\<rparr>) = ''4800''"
    by (simp add: var_text_def v_def u32_4800 dec_4800)
  from cliSet_first_match_frame [OF cstr_at_examples(1) e1] fg
  obtain s' where s': "cliSet (Some 4) A = Inr s'"
      "cfg s' = cfg (cliSetVar v ''4800'' A)"
      "\<forall>p. p \<noteq> var_ptr v \<longrightarrow> load (cfg s') p = load (cfg A) p"
      "trace s' = trace A @ [Puts (var_name v @ '' set to ''), Puts (var_text v (cfg s'))]"
    unfolding val A_def [symmetric] by blast
  from s'(3) ne have "load (cfg s') Ptr_ip_addr = load (cfg A) Ptr_ip_addr" by blast
  then have l: "load (cfg s') Ptr_ip_addr = (192, 168, 0, 2)"
    by (simp add: cA example_cfg_def)
  from s'(2) have g: "gps_baud_rate (cfg s') = (192, 18, 0, 0)"
    by (simp add: c1)
  from s'(4) have t: "trace s' = trace A @ [Puts ''gps_baud_rate set to '', Puts ''4800'']"
    unfolding s'(2) c1 vt by (simp add: v_def)
  from s'(1) g l t
  have w1: "\<exists>s'. cliSet (Some 4) A = Inr s'
          \<and> gps_baud_rate (cfg s') = (192, 18, 0, 0)
          \<and> load (cfg s') Ptr_ip_addr = (192, 168, 0, 2)
          \<and> trace s' = trace A @ [Puts ''gps_baud_rate set to '', Puts ''4800'']"
    by blast
  from cliSet_first_match_frame [OF cstr_at_examples(2) e2] find_foo
  have w2: "cliSet (Some 4) (cli_holding example_cfg ''set foo=1'')
       = Inr (uartPrint (''ERR: Unknown variable name'' @ CRLF)
                (cli_holding example_cfg ''set foo=1''))"
    by blast
  from cstr_at_examples e1 e2 fg ne w1 w2 find_foo show ?thesis
    unfolding A_def v_def by blast
qed

subsection \<open>Setting an address\<close>

lemma cstr_at_terminated:
  assumes "length line = n" and "NUL \<notin> set (drop k line)" and "k \<le> n" and "n < length buf"
  shows "cstr_at ((line @ drop n buf)[n := NUL]) k = Some (drop k line)"
proof -
  from assms(1,4) have "(line @ drop n buf)[n := NUL] = line @ NUL # drop (Suc n) buf"
    by (simp add: list_update_append Cons_nth_drop_Suc [symmetric])
  with assms(1,3) have d: "drop k ((line @ drop n buf)[n := NUL])
      = drop k line @ NUL # drop (Suc n) buf"
    by simp
  from assms(2) have "\<forall>x \<in> set (drop k line). x \<noteq> NUL" by auto
  then have "takeWhile (\<lambda>c. c \<noteq> NUL) (drop k line) = drop k line"
    by (simp only: takeWhile_eq_all_conv)
  then show ?thesis
    unfolding cstr_at_def d by (simp add: takeWhile_stop)
qed

lemma bsearch_set:
  "prefix_match ''set'' line \<Longrightarrow> bsearch line cmd_table CMD_COUNT cliCompare = Some 5"
proof -
  assume "prefix_match ''set'' line"
  then have "5 < CMD_COUNT \<and> prefix_match (cmd_name (cmd_table ! 5)) line"
    by (simp add: CMD_COUNT_8 cmd_table_nth)
  then show ?thesis by (simp only: bsearch_prefix_match)
qed

lemma cliSetVar_ip4: "var_type v = VAR_IP4 \<Longrightarrow> cliSetVar v str s = s"
  by (simp add: cliSetVar_def Let_def)

lemma cli_feed_all_set_line:
  assumes "cli_inv s" and "cl_enabled s \<noteq> 0" and "cl_count s = 0"
    and "length tail < 60" and "NUL \<notin> set tail"
    and "\<forall>c \<in> set tail. 32 \<le> (of_char c :: nat) \<and> (of_char c :: nat) \<le> 126 \<and> c \<noteq> CHR ''?''"
    and "cliSet (Some 4)
           (s\<lparr>cl_enabled := 1, cl_count := length (''set '' @ tail),
              cl_buf := ((''set '' @ tail) @ drop (length (''set '' @ tail)) (cl_buf s))
                          [length (''set '' @ tail) := NUL],
              trace := trace s @ map Putc (''set '' @ tail) @ [Puts CRLF]\<rparr>) = Inr s3"
  shows "cli_feed_all e ((''set '' @ tail) @ [CR]) s =
           Inr ((cliPrompt s3)\<lparr>cl_buf := (replicate 64 NUL)[0 := CR]\<rparr>)"
proof -
  define line where "line = ''set '' @ tail"
  define s2 where "s2 = s\<lparr>cl_enabled := 1, cl_count := length line,
              cl_buf := (line @ drop (length line) (cl_buf s))[length line := NUL],
              trace := trace s @ map Putc line @ [Puts CRLF]\<rparr>"
  from assms(7) have set: "cliSet (Some 4) s2 = Inr s3"
    unfolding s2_def line_def .
  have pm: "prefix_match ''set'' line"
    by (simp add: prefix_match_def line_def)
  have c: "CR = CR \<or> CR = LF" by simp
  have four: "(4::nat) = Suc (Suc (Suc (Suc 0)))" by simp
  have p: "line \<noteq> []" "length line < 64" "hd line \<noteq> CHR '' ''"
    "\<forall>c \<in> set line. 32 \<le> (of_char c :: nat) \<and> (of_char c :: nat) \<le> 126 \<and> c \<noteq> CHR ''?''"
    using assms(4,6) by (simp_all add: line_def)
  from cliSet_frame [OF set] have en3: "cl_enabled s3 = 1" "length (cl_buf s3) = 64"
    using assms(1) p(2) by (simp_all add: s2_def cli_inv_def)
  have "cli_feed_all e (line @ [CR]) s =
          Inr ((cliPrompt s3)\<lparr>cl_buf := (replicate 64 NUL)[0 := CR]\<rparr>)"
    unfolding cli_feed_all_line [OF assms(1,2,3) c p] bsearch_set [OF pm] s2_def [symmetric]
    using set [unfolded four] en3 by (simp add: cmd_table_nth cli_feed_eol_result)
  then show ?thesis by (simp only: line_def)
qed

lemma cliSet_assign_result:
  assumes "cstr_at (cl_buf s) i = Some tail" and "CHR ''='' \<in> set tail"
    and "find (\<lambda>v. prefix_match (var_name v) tail) value_table = Some v"
  shows "cliSet (Some i) s =
     Inr (cliPrintVar v 0
            (uart_printf ''%s set to '' [S (var_name v)]
               (cliSetVar v (dropWhile (\<lambda>c. c = CHR '' '')
                               (tl (dropWhile (\<lambda>c. c \<noteq> CHR ''='') tail))) s)))"
proof -
  from assms(2) have "tail \<noteq> []" "\<not> (length tail = 1 \<and> tail ! 0 = CHR ''*'')"
    by (auto simp add: length_Suc_conv)
  with assms(1,2) have "cliSet (Some i) s =
      Inr (cliSet_assign value_table tail
             (dropWhile (\<lambda>c. c = CHR '' '') (tl (dropWhile (\<lambda>c. c \<noteq> CHR ''='') tail))) s)"
    by (auto simp add: cliSet_def Let_def)
  with assms(3) show ?thesis
    unfolding cliSet_assign_find find_value_table_prefix by simp
qed

lemma cliSet_list_result:
  assumes "cstr_at (cl_buf s) i = Some []"
  shows "cliSet (Some i) s =
     Inr (cliSet_list value_table 0 (uartPrint (''Current settings:'' @ CRLF) s))"
  using assms by (simp add: cliSet_def Let_def)

lemma find_ip_addr:
  "find (\<lambda>v. prefix_match (var_name v) ''ip_addr=10.0.0.1'') value_table
     = Some \<lparr>var_name = ''ip_addr'', var_type = VAR_IP4, var_ptr = Ptr_ip_addr\<rparr>"
  by (simp add: value_table_def prefix_match_def tolower_def)

lemma cli_feed_set_ip_addr:
  assumes "cli_inv s" and "cl_enabled s \<noteq> 0" and "cl_count s = 0"
  shows "\<exists>s'. cli_feed_all e (''set ip_addr=10.0.0.1'' @ [CR]) s = Inr s'
           \<and> cfg s' = cfg s \<and> cli_inv s' \<and> cl_enabled s' = 1 \<and> cl_count s' = 0
           \<and> cl_buf s' = (replicate 64 NUL)[0 := CR]
           \<and> trace s' = trace s @ map Putc ''set ip_addr=10.0.0.1'' @
                [Puts CRLF, Puts ''ip_addr set to '', Puts (dotted_quad (ip_addr (cfg s))),
                 Puts (CRLF @ ''# '')]"
proof -
  define tail where "tail = ''ip_addr=10.0.0.1''"
  define v where "v = \<lparr>var_name = ''ip_addr'', var_type = VAR_IP4, var_ptr = Ptr_ip_addr\<rparr>"
  define line where "line = ''set '' @ tail"
  define s2 where "s2 = s\<lparr>cl_enabled := 1, cl_count := length line,
              cl_buf := (line @ drop (length line) (cl_buf s))[length line := NUL],
              trace := trace s @ map Putc line @ [Puts CRLF]\<rparr>"
  define s3 where "s3 = cliPrintVar v 0 (uart_printf ''%s set to '' [S (var_name v)] s2)"
  from assms(1) have len: "length (cl_buf s) = 64" "length (fmt_buf s) = 64"
    by (simp_all add: cli_inv_def)
  have "cstr_at ((line @ drop (length line) (cl_buf s))[length line := NUL]) 4 = Some (drop 4 line)"
    by (rule cstr_at_terminated) (simp_all add: line_def tail_def len)
  then have at: "cstr_at (cl_buf s2) 4 = Some tail"
    by (simp add: s2_def line_def)
  have eq: "CHR ''='' \<in> set tail" by (simp add: tail_def)
  have fnd: "find (\<lambda>v. prefix_match (var_name v) tail) value_table = Some v"
    unfolding tail_def v_def by (rule find_ip_addr)
  have ip: "var_type v = VAR_IP4" by (simp add: v_def)
  have set: "cliSet (Some 4) s2 = Inr s3"
    unfolding cliSet_assign_result [OF at eq fnd] cliSetVar_ip4 [OF ip] s3_def ..
  have p: "length tail < 60" "NUL \<notin> set tail"
    "\<forall>c \<in> set tail. 32 \<le> (of_char c :: nat) \<and> (of_char c :: nat) \<le> 126 \<and> c \<noteq> CHR ''?''"
    by (simp_all add: tail_def)
  have feed: "cli_feed_all e ((''set '' @ tail) @ [CR]) s =
           Inr ((cliPrompt s3)\<lparr>cl_buf := (replicate 64 NUL)[0 := CR]\<rparr>)"
    by (rule cli_feed_all_set_line [OF assms p]) (use set in \<open>simp only: s2_def line_def\<close>)
  have nm: "NUL \<notin> set (var_name v)" "length (var_name v) \<le> 13" by (simp_all add: v_def)
  have "trace s3 = trace s2 @ [Puts (var_name v @ '' set to ''), Puts (var_text v (cfg s2))]"
    by (simp add: s3_def cliPrintVar_trace uart_printf_name_trace(2) [OF nm])
  then have t3: "trace s3 = trace s @ map Putc line @
               [Puts CRLF, Puts ''ip_addr set to '', Puts (dotted_quad (ip_addr (cfg s)))]"
    by (simp add: s2_def var_text_def v_def)
  have f3: "cfg s3 = cfg s" "length (fmt_buf s3) = 64"
    using len by (simp_all add: s3_def s2_def)
  let ?s' = "(cliPrompt s3)\<lparr>cl_buf := (replicate 64 NUL)[0 := CR]\<rparr>"
  have "cli_inv ?s'" using f3 by (intro cli_inv_reset) simp_all
  moreover have "trace ?s' = trace s @ map Putc ''set ip_addr=10.0.0.1'' @
                [Puts CRLF, Puts ''ip_addr set to '', Puts (dotted_quad (ip_addr (cfg s))),
                 Puts (CRLF @ ''# '')]"
    by (simp add: t3 line_def tail_def)
  moreover have "cli_feed_all e (''set ip_addr=10.0.0.1'' @ [CR]) s = Inr ?s'"
    using feed by (simp add: tail_def)
  ultimately show ?thesis using f3 by (intro exI [of _ ?s']) simp
qed

lemma cli_feed_set_list:
  assumes "cli_inv s" and "cl_enabled s \<noteq> 0" and "cl_count s = 0"
    and "cl_buf s = x # replicate 63 NUL"
  shows "\<exists>s'. cli_feed_all e (''set'' @ [CR]) s = Inr s' \<and> cfg s' = cfg s
           \<and> trace s' = trace s @ map Putc ''set'' @
                [Puts CRLF, Puts (''Current settings:'' @ CRLF),
                 Puts ''gps_baud_rate = '',
                 Puts (dec (unat (u32_of_bytes (gps_baud_rate (cfg s))))), Puts CRLF,
                 Puts ''ip_addr = '', Puts (dotted_quad (ip_addr (cfg s))), Puts CRLF,
                 Puts ''ip_gateway = '', Puts (dotted_quad (ip_gateway (cfg s))), Puts CRLF,
                 Puts ''ip_netmask = '', Puts (dotted_quad (ip_netmask (cfg s))), Puts CRLF,
                 Puts (CRLF @ ''# '')]"
proof -
  define line where "line = ''set''"
  define s2 where "s2 = s\<lparr>cl_enabled := 1, cl_count := length line,
              cl_buf := (line @ drop (length line) (cl_buf s))[length line := NUL],
              trace := trace s @ map Putc line @ [Puts CRLF]\<rparr>"
  define s3 where "s3 = cliSet_list value_table 0 (uartPrint (''Current settings:'' @ CRLF) s2)"
  from assms(1) have len: "length (fmt_buf s) = 64" by (simp add: cli_inv_def)
  have at: "cstr_at (cl_buf s2) 4 = Some []"
    by (simp add: s2_def line_def assms(4) cstr_at_def)
  have set: "cliSet (Some (Suc (Suc (Suc (Suc 0))))) s2 = Inr s3"
    using cliSet_list_result [OF at] by (simp add: s3_def numeral_eq_Suc)
  have pm: "prefix_match ''set'' line" by (simp add: prefix_match_def line_def)
  have c: "CR = CR \<or> CR = LF" by simp
  have p: "line \<noteq> []" "length line < 64" "hd line \<noteq> CHR '' ''"
    "\<forall>c \<in> set line. 32 \<le> (of_char c :: nat) \<and> (of_char c :: nat) \<le> 126 \<and> c \<noteq> CHR ''?''"
    by (simp_all add: line_def)
  have f3: "cl_enabled s3 = 1" "length (cl_buf s3) = 64" "cfg s3 = cfg s"
    by (simp_all add: s3_def s2_def line_def assms(4))
  have feed: "cli_feed_all e (line @ [CR]) s =
          Inr ((cliPrompt s3)\<lparr>cl_buf := (replicate 64 NUL)[0 := CR]\<rparr>)"
    unfolding cli_feed_all_line [OF assms(1,2,3) c p] bsearch_set [OF pm] s2_def [symmetric]
    using set f3 by (simp add: cmd_table_nth cli_feed_eol_result)
  have n: "\<forall>v \<in> set value_table. NUL \<notin> set (var_name v) \<and> length (var_name v) \<le> 13"
    using value_table_names by blast
  have t3: "trace s3 = trace s @ map Putc line @
                [Puts CRLF, Puts (''Current settings:'' @ CRLF),
                 Puts ''gps_baud_rate = '',
                 Puts (dec (unat (u32_of_bytes (gps_baud_rate (cfg s))))), Puts CRLF,
                 Puts ''ip_addr = '', Puts (dotted_quad (ip_addr (cfg s))), Puts CRLF,
                 Puts ''ip_gateway = '', Puts (dotted_quad (ip_gateway (cfg s))), Puts CRLF,
                 Puts ''ip_netmask = '', Puts (dotted_quad (ip_netmask (cfg s))), Puts CRLF]"
    unfolding s3_def cliSet_list_trace [OF n]
    by (simp add: value_table_def var_text_def s2_def)
  let ?s' = "(cliPrompt s3)\<lparr>cl_buf := (replicate 64 NUL)[0 := CR]\<rparr>"
  have "trace ?s' = trace s @ map Putc ''set'' @
                [Puts CRLF, Puts (''Current settings:'' @ CRLF),
                 Puts ''gps_baud_rate = '',
                 Puts (dec (unat (u32_of_bytes (gps_baud_rate (cfg s))))), Puts CRLF,
                 Puts ''ip_addr = '', Puts (dotted_quad (ip_addr (cfg s))), Puts CRLF,
                 Puts ''ip_gateway = '', Puts (dotted_quad (ip_gateway (cfg s))), Puts CRLF,
                 Puts ''ip_netmask = '', Puts (dotted_quad (ip_netmask (cfg s))), Puts CRLF,
                 Puts (CRLF @ ''# '')]"
    by (simp add: t3 line_def)
  moreover have "cli_feed_all e (''set'' @ [CR]) s = Inr ?s'"
    using feed by (simp only: line_def)
  ultimately show ?thesis using f3 by (intro exI [of _ ?s']) simp
qed

text \<open>
  C1. With the session enabled, an empty buffer and the address 192.168.0.2 stored in
  \<^verbatim>\<open>ip_addr\<close>, the line \<^verbatim>\<open>set ip_addr=10.0.0.1\<close> leaves the configuration as it was: the
  echo reads \<^verbatim>\<open>ip_addr set to 192.168.0.2\<close>, and the listing of a following \<^verbatim>\<open>set\<close> shows
  \<^verbatim>\<open>ip_addr = 192.168.0.2\<close>. The value parsed in the \<^verbatim>\<open>VAR_IP4\<close> case is never stored.
\<close>

theorem cli_set_ip_addr_not_stored:
  "\<exists>s' s''. cli_feed_all example_env (''set ip_addr=10.0.0.1'' @ [CR]) (cli_ready example_cfg) = Inr s'
     \<and> cfg s' = example_cfg \<and> ip_addr (cfg s') = (192, 168, 0, 2)
     \<and> sent (trace s') = CRLF @ ''# set ip_addr=10.0.0.1'' @ CRLF
                          @ ''ip_addr set to 192.168.0.2'' @ CRLF @ ''# ''
     \<and> cli_feed_all example_env (''set ip_addr=10.0.0.1'' @ [CR] @ ''set'' @ [CR])
           (cli_ready example_cfg) = Inr s''
     \<and> ip_addr (cfg s'') = (192, 168, 0, 2)
     \<and> sent (trace s'') = sent (trace s') @ ''set'' @ CRLF @ ''Current settings:'' @ CRLF
                           @ ''gps_baud_rate = 9600'' @ CRLF
                           @ ''ip_addr = 192.168.0.2'' @ CRLF
                           @ ''ip_gateway = 0.0.0.0'' @ CRLF
                           @ ''ip_netmask = 255.255.255.0'' @ CRLF @ CRLF @ ''# ''"
proof -
  have r: "cli_inv (cli_ready example_cfg)" "cl_enabled (cli_ready example_cfg) \<noteq> 0"
    "cl_count (cli_ready example_cfg) = 0"
    by (simp_all add: cli_ready_inv) (simp_all add: cli_ready_def)
  have c: "cfg (cli_ready example_cfg) = example_cfg"
    "trace (cli_ready example_cfg) = [Puts (CRLF @ ''# '')]"
    by (simp_all add: cli_ready_def)
  from cli_feed_set_ip_addr [OF r, of example_env] obtain s' where
    s': "cli_feed_all example_env (''set ip_addr=10.0.0.1'' @ [CR]) (cli_ready example_cfg) = Inr s'"
      "cfg s' = example_cfg" "cli_inv s'" "cl_enabled s' = 1" "cl_count s' = 0"
      "cl_buf s' = (replicate 64 NUL)[0 := CR]"
      "trace s' = [Puts (CRLF @ ''# '')] @ map Putc ''set ip_addr=10.0.0.1'' @
                [Puts CRLF, Puts ''ip_addr set to '', Puts ''192.168.0.2'',
                 Puts (CRLF @ ''# '')]"
    unfolding c example_cfg_texts by blast
  have "replicate (Suc 63) NUL = NUL # replicate 63 NUL" by (rule replicate_Suc)
  then have "(replicate 64 NUL)[0 := CR] = CR # replicate 63 NUL" by simp
  with s'(6) have b: "cl_buf s' = CR # replicate 63 NUL" by simp
  from s'(4) have en: "cl_enabled s' \<noteq> 0" by simp
  from cli_feed_set_list [OF s'(3) en s'(5) b, of example_env] obtain s'' where
    s'': "cli_feed_all example_env (''set'' @ [CR]) s' = Inr s''" "cfg s'' = example_cfg"
      "trace s'' = trace s' @ map Putc ''set'' @
                [Puts CRLF, Puts (''Current settings:'' @ CRLF),
                 Puts ''gps_baud_rate = '', Puts ''9600'', Puts CRLF,
                 Puts ''ip_addr = '', Puts ''192.168.0.2'', Puts CRLF,
                 Puts ''ip_gateway = '', Puts ''0.0.0.0'', Puts CRLF,
                 Puts ''ip_netmask = '', Puts ''255.255.255.0'', Puts CRLF,
                 Puts (CRLF @ ''# '')]"
    unfolding s'(2) example_cfg_texts by blast
  have chain: "cli_feed_all example_env ((''set ip_addr=10.0.0.1'' @ [CR]) @ (''set'' @ [CR]))
           (cli_ready example_cfg) = Inr s''"
    using cli_feed_all_append [of example_env "''set ip_addr=10.0.0.1'' @ [CR]" "''set'' @ [CR]"
        "cli_ready example_cfg"] s'(1) s''(1)
    by (simp only: sum.case)
  have i: "ip_addr example_cfg = (192, 168, 0, 2)" by (simp add: example_cfg_def)
  have t1: "sent (trace s') = CRLF @ ''# set ip_addr=10.0.0.1'' @ CRLF
                          @ ''ip_addr set to 192.168.0.2'' @ CRLF @ ''# ''"
    unfolding s'(7) by simp
  have t2: "sent (trace s'') = sent (trace s') @ ''set'' @ CRLF @ ''Current settings:'' @ CRLF
                           @ ''gps_baud_rate = 9600'' @ CRLF
                           @ ''ip_addr = 192.168.0.2'' @ CRLF
                           @ ''ip_gateway = 0.0.0.0'' @ CRLF
                           @ ''ip_netmask = 255.255.255.0'' @ CRLF @ CRLF @ ''# ''"
    unfolding s''(3) by simp
  from s'(1,2) s''(2) chain i t1 t2 show ?thesis
    by (intro exI [of _ s'] exI [of _ s'']) simp
qed

subsection \<open>An assignment that matches an address variable\<close>

lemma find_ip_gateway:
  "find (\<lambda>v. prefix_match (var_name v) ''ip_gateway=10.0.0.254'') value_table
     = Some \<lparr>var_name = ''ip_gateway'', var_type = VAR_IP4, var_ptr = Ptr_ip_gateway\<rparr>"
  by (simp add: value_table_def prefix_match_def tolower_def)

lemma cstr_at_set_ip_gateway:
  "cstr_at (cl_buf (cli_holding example_cfg ''set ip_gateway=10.0.0.254'')) 4
     = Some ''ip_gateway=10.0.0.254''"
  by (simp add: cstr_at_def)

lemma ip4_val_example: "ip4_val ''10.0.0.254'' = 0x0A0000FE"
  by (simp add: ip4_val_def)

text \<open>
  C6. With \<^verbatim>\<open>ip_gateway\<close> holding 0.0.0.0, the argument tail \<^verbatim>\<open>ip_gateway=10.0.0.254\<close>
  matches the third entry of the value table first, and the scan of the value yields
  10.0.0.254, but the handler modifies no variable, the matched one included: the
  configuration is unchanged and the echo reads \<^verbatim>\<open>ip_gateway set to 0.0.0.0\<close>, the old
  value. This is the missing store of the \<^verbatim>\<open>VAR_IP4\<close> case, met through \<^verbatim>\<open>cliSet\<close>.
  What holds of every assignment (first match only, all other storage unchanged, the
  notice when nothing matches) is the lemma \<open>cliSet_first_match_frame\<close> above.
\<close>

theorem cliSet_ip4_match_not_modified:
  "cstr_at (cl_buf (cli_holding example_cfg ''set ip_gateway=10.0.0.254'')) 4
     = Some ''ip_gateway=10.0.0.254''
   \<and> find (\<lambda>v. prefix_match (var_name v) ''ip_gateway=10.0.0.254'') value_table
       = Some \<lparr>var_name = ''ip_gateway'', var_type = VAR_IP4, var_ptr = Ptr_ip_gateway\<rparr>
   \<and> ip4_val ''10.0.0.254'' = 0x0A0000FE
   \<and> ip_gateway example_cfg = (0, 0, 0, 0)
   \<and> (\<exists>s'. cliSet (Some 4) (cli_holding example_cfg ''set ip_gateway=10.0.0.254'') = Inr s'
          \<and> cfg s' = example_cfg
          \<and> ip_gateway (cfg s') = (0, 0, 0, 0)
          \<and> trace s' = trace (cli_holding example_cfg ''set ip_gateway=10.0.0.254'')
                         @ [Puts ''ip_gateway set to '', Puts ''0.0.0.0''])"
proof -
  define v where "v = \<lparr>var_name = ''ip_gateway'', var_type = VAR_IP4, var_ptr = Ptr_ip_gateway\<rparr>"
  define A where "A = cli_holding example_cfg ''set ip_gateway=10.0.0.254''"
  define s' where "s' = cliPrintVar v 0 (uart_printf ''%s set to '' [S (var_name v)] A)"
  have at: "cstr_at (cl_buf A) 4 = Some ''ip_gateway=10.0.0.254''"
    unfolding A_def by (rule cstr_at_set_ip_gateway)
  have eq: "CHR ''='' \<in> set ''ip_gateway=10.0.0.254''" by simp
  have fnd: "find (\<lambda>v. prefix_match (var_name v) ''ip_gateway=10.0.0.254'') value_table = Some v"
    unfolding v_def by (rule find_ip_gateway)
  have ip: "var_type v = VAR_IP4" by (simp add: v_def)
  have r: "cliSet (Some 4) A = Inr s'"
    unfolding cliSet_assign_result [OF at eq fnd] cliSetVar_ip4 [OF ip] s'_def ..
  have g: "ip_gateway example_cfg = (0, 0, 0, 0)" by (simp add: example_cfg_def)
  have c: "cfg s' = example_cfg" by (simp add: s'_def A_def)
  have nm: "NUL \<notin> set (var_name v)" "length (var_name v) \<le> 13" by (simp_all add: v_def)
  have "trace s' = trace A @ [Puts (var_name v @ '' set to ''), Puts (var_text v (cfg A))]"
    by (simp add: s'_def cliPrintVar_trace uart_printf_name_trace(2) [OF nm])
  moreover have "var_text v (cfg A) = ''0.0.0.0''"
    by (simp add: var_text_def v_def A_def example_cfg_texts)
  ultimately have t: "trace s' = trace A @ [Puts ''ip_gateway set to '', Puts ''0.0.0.0'']"
    by (simp add: v_def)
  from r c g t have "\<exists>s'. cliSet (Some 4) A = Inr s' \<and> cfg s' = example_cfg
          \<and> ip_gateway (cfg s') = (0, 0, 0, 0)
          \<and> trace s' = trace A @ [Puts ''ip_gateway set to '', Puts ''0.0.0.0'']"
    by (intro exI [of _ s']) simp
  with cstr_at_set_ip_gateway find_ip_gateway ip4_val_example g show ?thesis
    unfolding A_def by blast
qed

subsection \<open>The argument of a bare command after a form feed\<close>

lemma cli_feed_all_bare_set:
  assumes "cli_inv s" and "cl_enabled s \<noteq> 0" and "cl_count s = 0"
    and "cliSet (Some 4)
           (s\<lparr>cl_enabled := 1, cl_count := length ''set'',
              cl_buf := (''set'' @ drop (length ''set'') (cl_buf s))[length ''set'' := NUL],
              trace := trace s @ map Putc ''set'' @ [Puts CRLF]\<rparr>) = Inr s3"
  shows "cli_feed_all e (''set'' @ [CR]) s =
           Inr ((cliPrompt s3)\<lparr>cl_buf := (replicate 64 NUL)[0 := CR]\<rparr>)"
proof -
  define line where "line = ''set''"
  define s2 where "s2 = s\<lparr>cl_enabled := 1, cl_count := length line,
              cl_buf := (line @ drop (length line) (cl_buf s))[length line := NUL],
              trace := trace s @ map Putc line @ [Puts CRLF]\<rparr>"
  from assms(4) have set: "cliSet (Some 4) s2 = Inr s3"
    unfolding s2_def line_def .
  have pm: "prefix_match ''set'' line"
    by (simp add: prefix_match_def line_def)
  have c: "CR = CR \<or> CR = LF" by simp
  have four: "(4::nat) = Suc (Suc (Suc (Suc 0)))" by simp
  have p: "line \<noteq> []" "length line < 64" "hd line \<noteq> CHR '' ''"
    "\<forall>c \<in> set line. 32 \<le> (of_char c :: nat) \<and> (of_char c :: nat) \<le> 126 \<and> c \<noteq> CHR ''?''"
    by (simp_all add: line_def)
  from cliSet_frame [OF set] have en3: "cl_enabled s3 = 1" "length (cl_buf s3) = 64"
    using assms(1) p(2) by (simp_all add: s2_def cli_inv_def)
  have "cli_feed_all e (line @ [CR]) s =
          Inr ((cliPrompt s3)\<lparr>cl_buf := (replicate 64 NUL)[0 := CR]\<rparr>)"
    unfolding cli_feed_all_line [OF assms(1,2,3) c p] bsearch_set [OF pm] s2_def [symmetric]
    using set [unfolded four] en3 by (simp add: cmd_table_nth cli_feed_eol_result)
  then show ?thesis by (simp only: line_def)
qed

lemma find_gps_1:
  "find (\<lambda>v. prefix_match (var_name v) ''gps_baud_rate=1'') value_table
     = Some \<lparr>var_name = ''gps_baud_rate'', var_type = VAR_UINT32, var_ptr = Ptr_gps_baud_rate\<rparr>"
  by (simp add: value_table_def prefix_match_def tolower_def)

lemma set_1_values:
  "atoi_decimal ''1'' = 1" "bytes_of_u32 1 = (1, 0, 0, 0)" "u32_of_bytes (1, 0, 0, 0) = 1"
  "dec (Suc 0) = ''1''"
  by (simp_all add: atoi_decimal_def bytes_of_u32_def u32_of_bytes_def dec.simps digit_char_def
        char_of_eq_iff)

text \<open>
  C4. The handler is called with \<^verbatim>\<open>cl_buf + strlen(name) + 1\<close>. When the line is exactly
  the name, that address lies one past the terminator, and what is there is not part of the
  line. A form feed resets the count and leaves the bytes of the discarded line in the
  array: after \<^verbatim>\<open>xxxxgps_baud_rate=1\<close> and a form feed, the line \<^verbatim>\<open>set\<close> is held alone (count
  3), yet the string at offset 4 is \<^verbatim>\<open>gps_baud_rate=1\<close>, and Enter makes the set handler
  assign it: \<^verbatim>\<open>gps_baud_rate\<close> goes from 9600 to 1 and the echo reads
  \<^verbatim>\<open>gps_baud_rate set to 1\<close>. The search itself, the unknown-command notice for \<^verbatim>\<open>h\<close> and
  the dispatch of exact names are the lemma \<open>cli_dispatch_table_search\<close> above.
\<close>

theorem cli_dispatch_stale_argument:
  "gps_baud_rate example_cfg = (128, 37, 0, 0)
   \<and> (\<exists>s1. cli_feed_all example_env (''xxxxgps_baud_rate=1'' @ [FF] @ ''set'')
               (cli_ready example_cfg) = Inr s1
          \<and> cl_count s1 = 3 \<and> take (cl_count s1) (cl_buf s1) = ''set''
          \<and> cstr_at ((cl_buf s1)[cl_count s1 := NUL]) 4 = Some ''gps_baud_rate=1'')
   \<and> (\<exists>s'. cli_feed_all example_env (''xxxxgps_baud_rate=1'' @ [FF] @ ''set'' @ [CR])
               (cli_ready example_cfg) = Inr s'
          \<and> gps_baud_rate (cfg s') = (1, 0, 0, 0)
          \<and> sent (trace s') =
               CRLF @ ''# xxxxgps_baud_rate=1'' @ [ESC] @ ''[2J'' @ [ESC] @ ''[1;1H''
               @ CRLF @ ''# set'' @ CRLF @ ''gps_baud_rate set to 1'' @ CRLF @ ''# '')"
proof -
  define e where "e = example_env"
  define old where "old = ''xxxxgps_baud_rate=1''"
  define v where "v = \<lparr>var_name = ''gps_baud_rate'', var_type = VAR_UINT32,
                         var_ptr = Ptr_gps_baud_rate\<rparr>"
  define sA where "sA = (cli_ready example_cfg)\<lparr>cl_count := length old,
      cl_buf := old @ replicate 45 NUL, trace := trace (cli_ready example_cfg) @ map Putc old\<rparr>"
  define sB where "sB = cliPrompt (uartPrint ([ESC] @ ''[2J'' @ [ESC] @ ''[1;1H'') sA)"
  define sC where "sC = sB\<lparr>cl_count := length ''set'',
      cl_buf := ''set'' @ drop (length ''set'') (cl_buf sB), trace := trace sB @ map Putc ''set''\<rparr>"
  define s2 where "s2 = sB\<lparr>cl_enabled := 1, cl_count := length ''set'',
              cl_buf := (''set'' @ drop (length ''set'') (cl_buf sB))[length ''set'' := NUL],
              trace := trace sB @ map Putc ''set'' @ [Puts CRLF]\<rparr>"
  define s3 where "s3 = cliPrintVar v 0 (uart_printf ''%s set to '' [S (var_name v)]
                          (cliSetVar v ''1'' s2))"
  let ?s' = "(cliPrompt s3)\<lparr>cl_buf := (replicate 64 NUL)[0 := CR]\<rparr>"
  have "cli_feed_all e old (cli_ready example_cfg) =
     Inr ((cli_ready example_cfg)
            \<lparr>cl_count := cl_count (cli_ready example_cfg) + length old,
             cl_buf := take (cl_count (cli_ready example_cfg)) (cl_buf (cli_ready example_cfg)) @ old
                        @ drop (cl_count (cli_ready example_cfg) + length old)
                            (cl_buf (cli_ready example_cfg)),
             trace := trace (cli_ready example_cfg) @ map Putc old\<rparr>)"
    by (rule cli_feed_all_printables) (simp_all add: cli_ready_def old_def)
  then have fA: "cli_feed_all e old (cli_ready example_cfg) = Inr sA"
    by (simp add: sA_def cli_ready_def old_def)
  have enA: "cl_enabled sA \<noteq> 0" "sA\<lparr>cl_enabled := 1\<rparr> = sA"
    by (simp_all add: sA_def cli_ready_def)
  have fB: "cli_feed e FF sA = Inr sB"
    using cli_feed_ff [OF enA(1), of e] by (simp add: sB_def enA(2))
  have bB: "cl_buf sB = old @ replicate 45 NUL" "cl_count sB = 0" "cl_enabled sB = 1"
    "length (fmt_buf sB) = 64" "cfg sB = example_cfg"
    by (simp_all add: sB_def sA_def cli_ready_def)
  have invB: "cli_inv sB"
    using bB by (intro cli_inv_reset) (simp_all add: old_def)
  have enB: "cl_enabled sB \<noteq> 0" by (simp add: bB)
  have "cli_feed_all e ''set'' sB =
     Inr (sB\<lparr>cl_count := cl_count sB + length ''set'',
            cl_buf := take (cl_count sB) (cl_buf sB) @ ''set''
                        @ drop (cl_count sB + length ''set'') (cl_buf sB),
            trace := trace sB @ map Putc ''set''\<rparr>)"
    by (rule cli_feed_all_printables) (simp_all add: bB old_def)
  then have fC: "cli_feed_all e ''set'' sB = Inr sC"
    by (simp add: sC_def bB)
  have at: "cstr_at (cl_buf s2) 4 = Some ''gps_baud_rate=1''"
    by (simp add: s2_def bB old_def cstr_at_def)
  have atC: "cstr_at ((cl_buf sC)[cl_count sC := NUL]) 4 = Some ''gps_baud_rate=1''"
    "cl_count sC = 3" "take (cl_count sC) (cl_buf sC) = ''set''"
    by (simp_all add: sC_def bB old_def cstr_at_def)
  have eq: "CHR ''='' \<in> set ''gps_baud_rate=1''" by simp
  have fnd: "find (\<lambda>v. prefix_match (var_name v) ''gps_baud_rate=1'') value_table = Some v"
    unfolding v_def by (rule find_gps_1)
  have val: "dropWhile (\<lambda>c. c = CHR '' '') (tl (dropWhile (\<lambda>c. c \<noteq> CHR ''='') ''gps_baud_rate=1''))
               = ''1''"
    by simp
  have set: "cliSet (Some 4) s2 = Inr s3"
    unfolding cliSet_assign_result [OF at eq fnd] val s3_def ..
  have fD: "cli_feed_all e (''set'' @ [CR]) sB = Inr ?s'"
    by (rule cli_feed_all_bare_set [OF invB enB bB(2)]) (use set in \<open>simp only: s2_def\<close>)
  have c2: "cfg (cliSetVar v ''1'' s2) = example_cfg\<lparr>gps_baud_rate := (1, 0, 0, 0)\<rparr>"
    by (simp add: cliSetVar_def v_def set_1_values s2_def bB)
  have c3: "cfg s3 = example_cfg\<lparr>gps_baud_rate := (1, 0, 0, 0)\<rparr>"
    by (simp add: s3_def c2)
  have nm: "NUL \<notin> set (var_name v)" "length (var_name v) \<le> 13" by (simp_all add: v_def)
  have tr: "trace s3 = trace s2 @ [Puts (var_name v @ '' set to ''),
                               Puts (var_text v (cfg (cliSetVar v ''1'' s2)))]"
    by (simp add: s3_def cliPrintVar_trace uart_printf_name_trace(2) [OF nm])
  have vt: "var_text v (cfg (cliSetVar v ''1'' s2)) = ''1''"
    unfolding c2 by (simp add: var_text_def v_def set_1_values)
  have t3: "trace s3 = trace s2 @ [Puts ''gps_baud_rate set to '', Puts ''1'']"
    unfolding tr vt by (simp add: v_def)
  have t: "sent (trace ?s') =
               CRLF @ ''# xxxxgps_baud_rate=1'' @ [ESC] @ ''[2J'' @ [ESC] @ ''[1;1H''
               @ CRLF @ ''# set'' @ CRLF @ ''gps_baud_rate set to 1'' @ CRLF @ ''# ''"
    by (simp add: t3 s2_def sB_def sA_def cli_ready_def old_def)
  have g: "gps_baud_rate (cfg ?s') = (1, 0, 0, 0)" by (simp add: c3)
  have chain1: "cli_feed_all e (old @ [FF] @ ''set'') (cli_ready example_cfg) = Inr sC"
    using fA fB fC by (simp only: cli_feed_all_append cli_feed_all.simps sum.case)
  have chain2: "cli_feed_all e (old @ [FF] @ ''set'' @ [CR]) (cli_ready example_cfg) = Inr ?s'"
    using fA fB fD by (simp only: cli_feed_all_append cli_feed_all.simps sum.case)
  have w1: "\<exists>s1. cli_feed_all example_env (''xxxxgps_baud_rate=1'' @ [FF] @ ''set'')
               (cli_ready example_cfg) = Inr s1
          \<and> cl_count s1 = 3 \<and> take (cl_count s1) (cl_buf s1) = ''set''
          \<and> cstr_at ((cl_buf s1)[cl_count s1 := NUL]) 4 = Some ''gps_baud_rate=1''"
    using chain1 atC unfolding e_def old_def by blast
  have w2: "\<exists>s'. cli_feed_all example_env (''xxxxgps_baud_rate=1'' @ [FF] @ ''set'' @ [CR])
               (cli_ready example_cfg) = Inr s'
          \<and> gps_baud_rate (cfg s') = (1, 0, 0, 0)
          \<and> sent (trace s') =
               CRLF @ ''# xxxxgps_baud_rate=1'' @ [ESC] @ ''[2J'' @ [ESC] @ ''[1;1H''
               @ CRLF @ ''# set'' @ CRLF @ ''gps_baud_rate set to 1'' @ CRLF @ ''# ''"
    using chain2 g t unfolding e_def old_def by blast
  have "gps_baud_rate example_cfg = (128, 37, 0, 0)" by (simp add: example_cfg_def)
  with w1 w2 show ?thesis by blast
qed

end
